theory Spec2Isabelle
  imports Complex_Main "HOL-Library.Multiset"
begin

text \<open>
  ObjectDrawer reads one command per line (\<open>create_line\<close>, \<open>create_triangle\<close>,
  \<open>create_rectangle\<close>, \<open>create_square\<close>, \<open>connect\<close>, \<open>execute_file\<close>), parses it, and
  dispatches it to a handler that validates the geometry, registers the shape under its
  name and adds its item to the scene. This theory embeds the geometry helpers, the
  parser, the shapes, the repository and the dispatcher as functions, and proves what
  they do. Qt's strings, maps and graphics classes appear only as far as the program
  uses them.
\<close>

section \<open>Points and the geometry helpers of Utility.cpp\<close>

text \<open>
  \<open>QPointF\<close> holds two doubles (Qt names the members \<open>xp\<close> and \<open>yp\<close>; the accessors
  are \<open>x()\<close> and \<open>y()\<close>). The points of a command come from \<open>toDouble\<close> on decimal
  numerals, so their coordinates are finite; such a point is the record \<open>QPointF\<close> of the
  two real numbers it denotes, and the tests of Utility.cpp are evaluated on these real
  numbers (rounding is outside this model; the concrete coordinates used below are whole
  numbers). The points that the program computes from them and keeps or draws (the
  corners of a square built from its diagonal, the center of a shape) can be infinite
  or NaN; they are the record \<open>DPoint\<close> of the section on doubles below.
\<close>

record QPointF =
  xp :: real
  yp :: real

definition pt :: "real \<Rightarrow> real \<Rightarrow> QPointF" where
  "pt a b = \<lparr>xp = a, yp = b\<rparr>"

text \<open>\<open>Utility::sub\<close>, \<open>Utility::dot\<close>, \<open>Utility::dist2\<close>.\<close>

definition sub :: "QPointF \<Rightarrow> QPointF \<Rightarrow> QPointF" where
  "sub a b = pt (xp a - xp b) (yp a - yp b)"

definition dot :: "QPointF \<Rightarrow> QPointF \<Rightarrow> real" where
  "dot a b = xp a * xp b + yp a * yp b"

definition dist2 :: "QPointF \<Rightarrow> QPointF \<Rightarrow> real" where
  "dist2 a b = (let v = sub a b in xp v * xp v + yp v * yp v)"

text \<open>\<open>Utility::areCollinear\<close>: the cross product of \<open>b - a\<close> and \<open>c - a\<close> against \<open>eps\<close>.\<close>

definition areCollinear :: "QPointF \<Rightarrow> QPointF \<Rightarrow> QPointF \<Rightarrow> real \<Rightarrow> bool" where
  "areCollinear a b c eps =
     (let ab = sub b a; ac = sub c a;
          cross = xp ab * yp ac - yp ab * xp ac
      in \<bar>cross\<bar> < eps)"

text \<open>The static helper \<open>isRightAngle\<close>: the angle at \<open>b\<close>.\<close>

definition isRightAngle :: "QPointF \<Rightarrow> QPointF \<Rightarrow> QPointF \<Rightarrow> real \<Rightarrow> bool" where
  "isRightAngle a b c eps =
     (let v1 = sub a b; v2 = sub c b in \<bar>dot v1 v2\<bar> < eps)"

text \<open>
  The comparator handed to \<open>std::sort\<close> in \<open>isRectangle\<close> and \<open>isSquare\<close>:
  by \<open>x\<close>, then by \<open>y\<close>.
\<close>

definition pt_less :: "QPointF \<Rightarrow> QPointF \<Rightarrow> bool" where
  "pt_less a b = (if xp a = xp b then yp a < yp b else xp a < xp b)"

text \<open>
  \<open>std::sort\<close> is modelled by insertion sort under that comparator. The comparator is a
  strict total order on points, so every sorting algorithm returns the same vector
  (lemma \<open>sort_pts_unique\<close> below).
\<close>

fun insert_pt :: "QPointF \<Rightarrow> QPointF list \<Rightarrow> QPointF list" where
  "insert_pt p [] = [p]"
| "insert_pt p (q # qs) = (if pt_less q p then q # insert_pt p qs else p # q # qs)"

fun sort_pts :: "QPointF list \<Rightarrow> QPointF list" where
  "sort_pts [] = []"
| "sort_pts (p # ps) = insert_pt p (sort_pts ps)"

text \<open>\<open>Utility::isRectangle\<close>. The vector always holds the four arguments.\<close>

definition isRectangle ::
  "QPointF \<Rightarrow> QPointF \<Rightarrow> QPointF \<Rightarrow> QPointF \<Rightarrow> real \<Rightarrow> bool" where
  "isRectangle p1 p2 p3 p4 eps =
     (case sort_pts [p1, p2, p3, p4] of
        [A, B, C, D] \<Rightarrow>
          (let rightA = (isRightAngle B A C eps \<or> isRightAngle C A B eps);
               rightD = (isRightAngle B D C eps \<or> isRightAngle C D B eps);
               dAB = dist2 A B;
               dCD = dist2 C D;
               dAC = dist2 A C;
               dBD = dist2 B D;
               oppEqual = (\<bar>dAB - dCD\<bar> < eps \<and> \<bar>dAC - dBD\<bar> < eps)
           in rightA \<and> rightD \<and> oppEqual)
      | _ \<Rightarrow> False)"

text \<open>\<open>Utility::isSquare\<close>: sorts, calls \<open>isRectangle\<close> on the sorted corners, then
  compares the nearest-neighbour squared distances of the two extreme corners.\<close>

definition isSquare ::
  "QPointF \<Rightarrow> QPointF \<Rightarrow> QPointF \<Rightarrow> QPointF \<Rightarrow> real \<Rightarrow> bool" where
  "isSquare p1 p2 p3 p4 eps =
     (case sort_pts [p1, p2, p3, p4] of
        [A, B, C, D] \<Rightarrow>
          (if \<not> isRectangle A B C D eps then False
           else
             (let s1 = min (dist2 A B) (dist2 A C);
                  s2 = min (dist2 D B) (dist2 D C)
              in \<bar>s1 - s2\<bar> < eps \<and> s1 > eps))
      | _ \<Rightarrow> False)"

text \<open>\<open>Utility::isValidSquareDiagonal\<close>.\<close>

definition isValidSquareDiagonal :: "QPointF \<Rightarrow> QPointF \<Rightarrow> real \<Rightarrow> bool" where
  "isValidSquareDiagonal d1 d2 eps = (dist2 d1 d2 > eps)"

text \<open>The default tolerances declared in Utility.h.\<close>

definition eps_default :: real where
  "eps_default = 1 / 10 ^ 6"

definition eps_diagonal :: real where
  "eps_diagonal = 1 / 10 ^ 9"


section \<open>Qt strings\<close>

text \<open>
  A \<open>QString\<close> is read as a \<open>string\<close>: one \<open>char\<close> per code unit, so only code units
  below 256 are covered. \<open>QChar::isSpace\<close> on that range: the ASCII white space and the
  two Latin-1 spaces U+0085 and U+00A0.
\<close>

definition isSpace :: "char \<Rightarrow> bool" where
  "isSpace c = (let u = (of_char c :: nat)
                in u = 32 \<or> (9 \<le> u \<and> u \<le> 13) \<or> u = 133 \<or> u = 160)"

text \<open>\<open>QString::trimmed\<close>: white space removed from both ends.\<close>

definition trimmed :: "string \<Rightarrow> string" where
  "trimmed s = rev (dropWhile isSpace (rev (dropWhile isSpace s)))"

text \<open>The class \<open>\s\<close> of \<open>QRegularExpression\<close> (no Unicode properties): ASCII white space.\<close>

definition re_space :: "char \<Rightarrow> bool" where
  "re_space c = (let u = (of_char c :: nat) in u = 32 \<or> (9 \<le> u \<and> u \<le> 13))"

text \<open>The class \<open>\d\<close>: an ASCII digit, and its value.\<close>

definition is_digit :: "char \<Rightarrow> bool" where
  "is_digit c = (let u = (of_char c :: nat) in 48 \<le> u \<and> u \<le> 57)"

definition digit_value :: "char \<Rightarrow> nat" where
  "digit_value c = (of_char c :: nat) - 48"

text \<open>
  \<open>raw.split(QRegularExpression("\\s+"), Qt::SkipEmptyParts)\<close>: the maximal runs of
  characters that are not white space. \<open>cur\<close> is the token being read.
\<close>

fun split_ws :: "string \<Rightarrow> string \<Rightarrow> string list" where
  "split_ws cur [] = (if cur = [] then [] else [cur])"
| "split_ws cur (c # cs) =
     (if re_space c then (if cur = [] then split_ws [] cs else cur # split_ws [] cs)
      else split_ws (cur @ [c]) cs)"

definition startsWith :: "string \<Rightarrow> string \<Rightarrow> bool" where
  "startsWith s p = (take (length p) s = p)"

text \<open>
  \<open>QString::arg\<close> with one argument replaces every occurrence of the place marker with
  the lowest number. A marker is \<open>%\<close>, an optional \<open>L\<close>, and one or two digits (with
  \<open>L\<close>, Qt inserts a number in the form of the locale; the messages of this program have
  no such marker, and it is filled here like the plain one).
  \<open>escape_at\<close> reads the text after a \<open>%\<close>: the marker's number and how many characters
  the marker takes after the \<open>%\<close>.
\<close>

definition escape_at :: "string \<Rightarrow> (nat \<times> nat) option" where
  "escape_at s =
     (let l = (case s of [] \<Rightarrow> 0 | c # _ \<Rightarrow> if c = CHR ''L'' then 1 else (0::nat));
          s' = drop l s
      in case s' of
           [] \<Rightarrow> None
         | c # r \<Rightarrow>
             if \<not> is_digit c then None
             else (case r of
                     [] \<Rightarrow> Some (digit_value c, l + 1)
                   | c2 # _ \<Rightarrow>
                       if is_digit c2 then Some (10 * digit_value c + digit_value c2, l + 2)
                       else Some (digit_value c, l + 1)))"

fun min_escape :: "string \<Rightarrow> nat option" where
  "min_escape [] = None"
| "min_escape (c # cs) =
     (if c = CHR ''%'' then
        (case escape_at cs of
           None \<Rightarrow> min_escape cs
         | Some (n, _) \<Rightarrow>
             (case min_escape cs of None \<Rightarrow> Some n | Some m \<Rightarrow> Some (min n m)))
      else min_escape cs)"

text \<open>\<open>skip\<close> counts the characters of a replaced marker still to be dropped.\<close>

fun replace_escapes :: "nat \<Rightarrow> string \<Rightarrow> nat \<Rightarrow> string \<Rightarrow> string" where
  "replace_escapes m a skip [] = []"
| "replace_escapes m a skip (c # cs) =
     (if 0 < skip then replace_escapes m a (skip - 1) cs
      else if c = CHR ''%'' then
        (case escape_at cs of
           None \<Rightarrow> c # replace_escapes m a 0 cs
         | Some (n, len) \<Rightarrow>
             if n = m then a @ replace_escapes m a len cs
             else c # replace_escapes m a 0 cs)
      else c # replace_escapes m a 0 cs)"

text \<open>A string without a marker is returned as it is (Qt prints a warning).\<close>

definition qarg :: "string \<Rightarrow> string \<Rightarrow> string" where
  "qarg s a = (case min_escape s of None \<Rightarrow> s | Some m \<Rightarrow> replace_escapes m a 0 s)"

text \<open>
  \<open>QString::arg(int)\<close> inserts the decimal digits. The counters of the dispatcher are
  C++ \<open>int\<close>s that only count up from zero; they are natural numbers here.
\<close>

definition digit_char :: "nat \<Rightarrow> char" where
  "digit_char d = ''0123456789'' ! d"

fun show_nat :: "nat \<Rightarrow> string" where
  "show_nat n =
     (if n < 10 then [digit_char n]
      else show_nat (n div 10) @ [digit_char (n mod 10)])"

declare show_nat.simps [simp del]

definition qarg_int :: "string \<Rightarrow> nat \<Rightarrow> string" where
  "qarg_int s n = qarg s (show_nat n)"

section \<open>The command parser (CommandParser.cpp)\<close>

record Command =
  name :: string
  args :: "string \<rightharpoonup> string"
  coords :: "string \<rightharpoonup> QPointF"
  errors :: "string list"

definition empty_Command :: Command where
  "empty_Command = \<lparr>name = [], args = Map.empty, coords = Map.empty, errors = []\<rparr>"

text \<open>
  One number of the coordinate expression, \<open>-?\d+(?:\.\d+)?\<close>: the captured text and
  the rest of the input. Every part of the expression is followed by a character it
  cannot itself match, so reading greedily from the left decides the match.
\<close>

definition match_number :: "string \<Rightarrow> (string \<times> string) option" where
  "match_number s =
     (let sgn = (case s of [] \<Rightarrow> [] | c # _ \<Rightarrow> if c = CHR ''-'' then [c] else []);
          s1 = drop (length sgn) s;
          ds = takeWhile is_digit s1;
          s2 = dropWhile is_digit s1
      in if ds = [] then None
         else (case s2 of
                 [] \<Rightarrow> Some (sgn @ ds, s2)
               | c # r \<Rightarrow>
                   if c = CHR ''.'' \<and> takeWhile is_digit r \<noteq> []
                   then Some (sgn @ ds @ [c] @ takeWhile is_digit r, dropWhile is_digit r)
                   else Some (sgn @ ds, s2)))"

text \<open>
  The whole expression
  \<^verbatim>\<open>^\{\s*(-?\d+(?:\.\d+)?)\s*,\s*(-?\d+(?:\.\d+)?)\s*\}$\<close>:
  the two captures. \<open>$\<close> also matches before a final newline.
\<close>

definition match_coords :: "string \<Rightarrow> (string \<times> string) option" where
  "match_coords token =
     (case token of
        [] \<Rightarrow> None
      | c0 # r0 \<Rightarrow>
          if c0 \<noteq> CHR ''{'' then None
          else (case match_number (dropWhile re_space r0) of
                  None \<Rightarrow> None
                | Some (cx, r1) \<Rightarrow>
                    (case dropWhile re_space r1 of
                       [] \<Rightarrow> None
                     | c1 # r2 \<Rightarrow>
                         if c1 \<noteq> CHR '','' then None
                         else (case match_number (dropWhile re_space r2) of
                                 None \<Rightarrow> None
                               | Some (cy, r3) \<Rightarrow>
                                   (case dropWhile re_space r3 of
                                      [] \<Rightarrow> None
                                    | c2 # r4 \<Rightarrow>
                                        if c2 = CHR ''}'' \<and> (r4 = [] \<or> r4 = ''\<newline>'')
                                        then Some (cx, cy) else None)))))"

text \<open>
  \<open>QString::toDouble\<close> on a captured number: sign, integer digits, optional fraction.
  The value is the real number the text denotes; \<open>None\<close> stands for \<open>ok = false\<close>.
\<close>

definition digits_value :: "string \<Rightarrow> nat" where
  "digits_value ds = foldl (\<lambda>a c. 10 * a + digit_value c) 0 ds"

definition toDouble :: "string \<Rightarrow> real option" where
  "toDouble s =
     (let neg = (case s of [] \<Rightarrow> False | c # _ \<Rightarrow> c = CHR ''-'');
          s1 = (if neg then drop 1 s else s);
          ip = takeWhile is_digit s1;
          s2 = dropWhile is_digit s1;
          fp = drop 1 s2
      in if ip = [] \<or> (s2 \<noteq> [] \<and> (hd s2 \<noteq> CHR ''.'' \<or> fp = [] \<or> \<not> list_all is_digit fp))
         then None
         else (let v = real (digits_value ip) + real (digits_value fp) / 10 ^ length fp
               in Some (if neg then - v else v)))"

text \<open>\<open>CommandParser::parseCoords\<close>: \<open>Inl\<close> carries \<open>errorMessage\<close>.\<close>

definition parseCoords :: "string \<Rightarrow> string + QPointF" where
  "parseCoords token =
     (case match_coords token of
        None \<Rightarrow> Inl (qarg ''Invalid coordinate format '%1'. Expected {x,y}.'' token)
      | Some (cx, cy) \<Rightarrow>
          (case toDouble cx of
             None \<Rightarrow> Inl (qarg ''Failed to parse numeric values in '%1'.'' token)
           | Some vx \<Rightarrow>
               (case toDouble cy of
                  None \<Rightarrow> Inl (qarg ''Failed to parse numeric values in '%1'.'' token)
                | Some vy \<Rightarrow> Inr (pt vx vy))))"

text \<open>\<open>CommandParser::parseFlagValue\<close>: never fails.\<close>

definition parseFlagValue :: "string \<Rightarrow> string \<Rightarrow> Command \<Rightarrow> Command" where
  "parseFlagValue flag v out = out\<lparr>args := (args out)(drop 1 flag \<mapsto> v)\<rparr>"

text \<open>The loop of \<open>CommandParser::parse\<close> over the tokens after the command name.\<close>

fun parse_tokens :: "string list \<Rightarrow> Command \<Rightarrow> string + Command" where
  "parse_tokens [] out = Inr out"
| "parse_tokens [t] out =
     (if startsWith t ''-coord_'' then Inl (qarg ''Expected coordinate after '%1'.'' t)
      else if startsWith t ''-'' then Inl (qarg ''Expected value after flag '%1'.'' t)
      else Inl (qarg ''Unexpected token '%1'. Flags should start with '-'.'' t))"
| "parse_tokens (t # v # rest) out =
     (if startsWith t ''-coord_'' then
        (case parseCoords v of
           Inl errorMessage \<Rightarrow> Inl errorMessage
         | Inr p \<Rightarrow> parse_tokens rest (out\<lparr>coords := (coords out)(drop 1 t \<mapsto> p)\<rparr>))
      else if startsWith t ''-'' then parse_tokens rest (parseFlagValue t v out)
      else Inl (qarg ''Unexpected token '%1'. Flags should start with '-'.'' t))"

definition parse :: "string \<Rightarrow> string + Command" where
  "parse raw =
     (case split_ws [] raw of
        [] \<Rightarrow> Inl ''No tokens found in the command.''
      | first # tokens \<Rightarrow>
          (case parse_tokens tokens (empty_Command\<lparr>name := first\<rparr>) of
             Inl errorMessage \<Rightarrow> Inl errorMessage
           | Inr out \<Rightarrow>
               if name out = [] then Inl ''Command name is empty.'' else Inr out))"


section \<open>Doubles that overflow\<close>

text \<open>
  A double that the program computes: a real number, one of the two infinities, or NaN.
  An operation on two real numbers gives the exact result while that is smaller in
  magnitude than \<open>2^1024 - 2^970\<close>, the largest double plus half a unit in its last
  place, and the infinity of its sign from there on, as rounding to nearest does. The
  other cases are those of IEEE 754. Rounding below that bound, underflow and the sign
  of a zero are outside this model.
\<close>

datatype double = Finite real | PosInf | NegInf | NaN

definition overflow_threshold :: real where
  "overflow_threshold = 2 ^ 1024 - 2 ^ 970"

definition round_double :: "real \<Rightarrow> double" where
  "round_double r =
     (if overflow_threshold \<le> r then PosInf
      else if r \<le> - overflow_threshold then NegInf
      else Finite r)"

text \<open>Unary minus, \<open>+\<close>, \<open>-\<close>, \<open>*\<close>, \<open>/\<close>, \<open>qSqrt\<close>, \<open>==\<close> and \<open><\<close> on doubles.\<close>

fun dneg :: "double \<Rightarrow> double" where
  "dneg (Finite a) = Finite (- a)"
| "dneg PosInf = NegInf"
| "dneg NegInf = PosInf"
| "dneg NaN = NaN"

fun dadd :: "double \<Rightarrow> double \<Rightarrow> double" where
  "dadd (Finite a) (Finite b) = round_double (a + b)"
| "dadd NaN b = NaN"
| "dadd a NaN = NaN"
| "dadd PosInf NegInf = NaN"
| "dadd NegInf PosInf = NaN"
| "dadd PosInf b = PosInf"
| "dadd NegInf b = NegInf"
| "dadd (Finite a) b = b"

definition dsub :: "double \<Rightarrow> double \<Rightarrow> double" where
  "dsub a b = dadd a (dneg b)"

fun dmul :: "double \<Rightarrow> double \<Rightarrow> double" where
  "dmul (Finite a) (Finite b) = round_double (a * b)"
| "dmul NaN b = NaN"
| "dmul a NaN = NaN"
| "dmul (Finite a) b = (if a = 0 then NaN else if 0 < a then b else dneg b)"
| "dmul a (Finite b) = (if b = 0 then NaN else if 0 < b then a else dneg a)"
| "dmul PosInf b = b"
| "dmul NegInf b = dneg b"

fun ddiv :: "double \<Rightarrow> double \<Rightarrow> double" where
  "ddiv (Finite a) (Finite b) =
     (if b = 0 then (if a = 0 then NaN else if 0 < a then PosInf else NegInf)
      else round_double (a / b))"
| "ddiv NaN b = NaN"
| "ddiv a NaN = NaN"
| "ddiv (Finite a) b = Finite 0"
| "ddiv a (Finite b) = (if 0 \<le> b then a else dneg a)"
| "ddiv a b = NaN"

fun dsqrt :: "double \<Rightarrow> double" where
  "dsqrt (Finite a) = (if a < 0 then NaN else Finite (sqrt a))"
| "dsqrt PosInf = PosInf"
| "dsqrt NegInf = NaN"
| "dsqrt NaN = NaN"

fun deq :: "double \<Rightarrow> double \<Rightarrow> bool" where
  "deq (Finite a) (Finite b) = (a = b)"
| "deq PosInf PosInf = True"
| "deq NegInf NegInf = True"
| "deq a b = False"

fun dless :: "double \<Rightarrow> double \<Rightarrow> bool" where
  "dless (Finite a) (Finite b) = (a < b)"
| "dless NaN b = False"
| "dless a NaN = False"
| "dless a NegInf = False"
| "dless NegInf b = True"
| "dless PosInf b = False"
| "dless (Finite a) PosInf = True"

text \<open>
  A \<open>QPointF\<close> whose members are such doubles, and the point of a command as one of
  them.
\<close>

record DPoint =
  dxp :: double
  dyp :: double

definition dpoint :: "double \<Rightarrow> double \<Rightarrow> DPoint" where
  "dpoint a b = \<lparr>dxp = a, dyp = b\<rparr>"

definition dpt :: "QPointF \<Rightarrow> DPoint" where
  "dpt p = dpoint (Finite (xp p)) (Finite (yp p))"

text \<open>
  \<open>Utility::dist2\<close> with the overflow of its operations. The test of
  \<open>isValidSquareDiagonal\<close> on these doubles decides as the test on the real numbers
  does (lemma \<open>isValidSquareDiagonal_double\<close> below).
\<close>

definition dist2_double :: "DPoint \<Rightarrow> DPoint \<Rightarrow> double" where
  "dist2_double a b =
     (let v = dpoint (dsub (dxp a) (dxp b)) (dsub (dyp a) (dyp b))
      in dadd (dmul (dxp v) (dxp v)) (dmul (dyp v) (dyp v)))"

section \<open>Shapes\<close>

text \<open>
  What a shape hands to the scene: a \<open>QGraphicsLineItem\<close> or a \<open>QGraphicsPolygonItem\<close>
  with its polygon. The dashed connector of \<open>connect\<close> is a line item of its own kind.
  Colours and brushes are left out. The ends of a line item are the points of the
  command; a polygon and the ends of a connector hold computed points.
\<close>

datatype QGraphicsItem =
    LineItem QPointF QPointF
  | PolygonItem "DPoint list"
  | DashedLineItem DPoint DPoint

text \<open>
  The subclasses of \<open>ShapeBase\<close>, each with \<open>m_name\<close>. A line keeps \<open>m_p1\<close> and \<open>m_p2\<close>,
  a triangle its three \<open>m_pts\<close>; a rectangle and a square keep \<open>m_pts\<close> and, apart from it,
  the polygon of \<open>m_item\<close>. The points of a line, of a triangle and of a rectangle are
  points of the command or minima and maxima of their coordinates; those of a square
  are computed with sums, products and quotients when it is built from a diagonal.
\<close>

datatype ShapeBase =
    LineShape string QPointF QPointF
  | TriangleShape string QPointF QPointF QPointF
  | RectangleShape string "QPointF list" "QPointF list"
  | SquareShape string "DPoint list" "DPoint list"

fun graphicsItem :: "ShapeBase \<Rightarrow> QGraphicsItem" where
  "graphicsItem (LineShape nm p1 p2) = LineItem p1 p2"
| "graphicsItem (TriangleShape nm p1 p2 p3) = PolygonItem (map dpt [p1, p2, p3])"
| "graphicsItem (RectangleShape nm pts poly) = PolygonItem (map dpt poly)"
| "graphicsItem (SquareShape nm pts poly) = PolygonItem poly"

text \<open>\<open>RectangleShape(name, p1, p2)\<close>: the axis-aligned box of a diagonal.\<close>

definition RectangleShape_diagonal :: "string \<Rightarrow> QPointF \<Rightarrow> QPointF \<Rightarrow> ShapeBase" where
  "RectangleShape_diagonal nm p1 p2 =
     (let x1 = min (xp p1) (xp p2);
          x2 = max (xp p1) (xp p2);
          y1 = min (yp p1) (yp p2);
          y2 = max (yp p1) (yp p2);
          m_pts = [pt x1 y1, pt x2 y1, pt x2 y2, pt x1 y2]
      in RectangleShape nm m_pts m_pts)"

text \<open>
  \<open>RectangleShape(name, points)\<close>: \<open>m_pts\<close> is the vector as given; the polygon is built
  from the running minima and maxima, which start at \<open>points[0]\<close>. On an empty vector
  that read is out of range: \<open>None\<close>.
\<close>

definition RectangleShape_points :: "string \<Rightarrow> QPointF list \<Rightarrow> ShapeBase option" where
  "RectangleShape_points nm points =
     (case points of
        [] \<Rightarrow> None
      | p0 # _ \<Rightarrow>
          (let minX = foldl (\<lambda>m q. min m (xp q)) (xp p0) points;
               maxX = foldl (\<lambda>m q. max m (xp q)) (xp p0) points;
               minY = foldl (\<lambda>m q. min m (yp q)) (yp p0) points;
               maxY = foldl (\<lambda>m q. max m (yp q)) (yp p0) points
           in Some (RectangleShape nm points
                      [pt minX minY, pt maxX minY, pt maxX maxY, pt minX maxY])))"

text \<open>
  \<open>SquareShape(name, d1, d2)\<close>. The vector \<open>v\<close> of the diagonal, and the expression
  \<open>qSqrt(v.x()*v.x() + v.y()*v.y())\<close>, which the constructor evaluates for \<open>half\<close>
  and again for \<open>len\<close>.
\<close>

definition diagonal_vector :: "DPoint \<Rightarrow> DPoint \<Rightarrow> DPoint" where
  "diagonal_vector d1 d2 = dpoint (dsub (dxp d2) (dxp d1)) (dsub (dyp d2) (dyp d1))"

definition vector_length :: "DPoint \<Rightarrow> double" where
  "vector_length v = dsqrt (dadd (dmul (dxp v) (dxp v)) (dmul (dyp v) (dyp v)))"

text \<open>
  The constructor itself. The division by the length of the diagonal is guarded by the
  test \<open>len == 0.0\<close>, as in the source.
\<close>

definition SquareShape_diagonal :: "string \<Rightarrow> DPoint \<Rightarrow> DPoint \<Rightarrow> ShapeBase" where
  "SquareShape_diagonal nm d1 d2 =
     (let v = diagonal_vector d1 d2;
          M = dpoint (ddiv (dadd (dxp d1) (dxp d2)) (Finite 2))
                     (ddiv (dadd (dyp d1) (dyp d2)) (Finite 2));
          half = ddiv (vector_length v) (Finite 2);
          len = vector_length v;
          ux = (if deq len (Finite 0) then Finite 0 else ddiv (dxp v) len);
          uy = (if deq len (Finite 0) then Finite 0 else ddiv (dyp v) len);
          w1 = dpoint (dneg uy) ux;
          sideHalf = ddiv half (dsqrt (Finite 2));
          a = dpoint (dadd (dadd (dxp M) (ddiv (dxp v) (Finite 2))) (dmul (dxp w1) sideHalf))
                     (dadd (dadd (dyp M) (ddiv (dyp v) (Finite 2))) (dmul (dyp w1) sideHalf));
          b = dpoint (dadd (dsub (dxp M) (ddiv (dxp v) (Finite 2))) (dmul (dxp w1) sideHalf))
                     (dadd (dsub (dyp M) (ddiv (dyp v) (Finite 2))) (dmul (dyp w1) sideHalf));
          c = dpoint (dsub (dsub (dxp M) (ddiv (dxp v) (Finite 2))) (dmul (dxp w1) sideHalf))
                     (dsub (dsub (dyp M) (ddiv (dyp v) (Finite 2))) (dmul (dyp w1) sideHalf));
          d = dpoint (dsub (dadd (dxp M) (ddiv (dxp v) (Finite 2))) (dmul (dxp w1) sideHalf))
                     (dsub (dadd (dyp M) (ddiv (dyp v) (Finite 2))) (dmul (dyp w1) sideHalf));
          m_pts = [a, b, c, d]
      in SquareShape nm m_pts m_pts)"

text \<open>\<open>SquareShape(name, vertices)\<close>: the polygon is the vector as given.\<close>

definition SquareShape_vertices :: "string \<Rightarrow> QPointF list \<Rightarrow> ShapeBase" where
  "SquareShape_vertices nm vertices = SquareShape nm (map dpt vertices) (map dpt vertices)"

text \<open>
  \<open>QRectF\<close>, its \<open>center()\<close>, and \<open>QPolygonF::boundingRect\<close> (the null rectangle for an
  empty polygon): every point of the polygon replaces the running minimum when it is
  less and the running maximum when it is greater.
\<close>

record QRectF =
  rx :: double
  ry :: double
  rw :: double
  rh :: double

definition rect_center :: "QRectF \<Rightarrow> DPoint" where
  "rect_center r =
     dpoint (dadd (rx r) (ddiv (rw r) (Finite 2))) (dadd (ry r) (ddiv (rh r) (Finite 2)))"

definition dmin :: "double \<Rightarrow> double \<Rightarrow> double" where
  "dmin m q = (if dless q m then q else m)"

definition dmax :: "double \<Rightarrow> double \<Rightarrow> double" where
  "dmax m q = (if dless m q then q else m)"

definition polygon_boundingRect :: "DPoint list \<Rightarrow> QRectF" where
  "polygon_boundingRect poly =
     (case poly of
        [] \<Rightarrow> \<lparr>rx = Finite 0, ry = Finite 0, rw = Finite 0, rh = Finite 0\<rparr>
      | p0 # ps \<Rightarrow>
          (let minx = foldl (\<lambda>m q. dmin m (dxp q)) (dxp p0) ps;
               maxx = foldl (\<lambda>m q. dmax m (dxp q)) (dxp p0) ps;
               miny = foldl (\<lambda>m q. dmin m (dyp q)) (dyp p0) ps;
               maxy = foldl (\<lambda>m q. dmax m (dyp q)) (dyp p0) ps
           in \<lparr>rx = minx, ry = miny, rw = dsub maxx minx, rh = dsub maxy miny\<rparr>))"

text \<open>
  What the program takes from outside: the script files (the lines that
  \<open>QTextStream::readLine\<close> returns until \<open>atEnd\<close>, or \<open>None\<close> for a file that does not
  open), how \<open>QString::arg(double)\<close> prints a number, and
  \<open>QGraphicsPolygonItem::boundingRect\<close>, which Qt computes from the outline that the pen
  of width 2 strokes around the polygon.
\<close>

record env =
  files :: "string \<Rightarrow> string list option"
  number :: "real \<Rightarrow> string"
  polygon_item_rect :: "DPoint list \<Rightarrow> QRectF"

text \<open>
  \<open>center()\<close> of each subclass. The sums of the coordinates are formed first, from the
  left, and divided afterwards.
\<close>

fun center :: "env \<Rightarrow> ShapeBase \<Rightarrow> DPoint" where
  "center e (LineShape nm p1 p2) =
     dpoint (ddiv (dadd (Finite (xp p1)) (Finite (xp p2))) (Finite 2))
            (ddiv (dadd (Finite (yp p1)) (Finite (yp p2))) (Finite 2))"
| "center e (TriangleShape nm p0 p1 p2) =
     dpoint (ddiv (dadd (dadd (Finite (xp p0)) (Finite (xp p1))) (Finite (xp p2))) (Finite 3))
            (ddiv (dadd (dadd (Finite (yp p0)) (Finite (yp p1))) (Finite (yp p2))) (Finite 3))"
| "center e (RectangleShape nm pts poly) = rect_center (polygon_item_rect e (map dpt poly))"
| "center e (SquareShape nm pts poly) = rect_center (polygon_item_rect e poly)"

section \<open>The shape repository (ShapeRepository.cpp)\<close>

text \<open>\<open>m_items\<close> is a \<open>QMap\<close> from names to shapes; \<open>insert\<close> replaces an existing key.\<close>

type_synonym ShapeRepository = "string \<rightharpoonup> ShapeBase"

definition repo_contains :: "ShapeRepository \<Rightarrow> string \<Rightarrow> bool" where
  "repo_contains m_items nm = (m_items nm \<noteq> None)"

definition repo_add :: "ShapeRepository \<Rightarrow> string \<Rightarrow> ShapeBase \<Rightarrow> ShapeRepository" where
  "repo_add m_items nm shape = m_items(nm \<mapsto> shape)"

definition repo_get :: "ShapeRepository \<Rightarrow> string \<Rightarrow> ShapeBase option" where
  "repo_get m_items nm = m_items nm"

section \<open>The command dispatcher (CommandDispatcher.cpp)\<close>

text \<open>
  The dispatcher points to the scene and to the repository; both are its state here.
  The scene is the list of the items added to it, oldest first.
\<close>

record CommandDispatcher =
  m_scene :: "QGraphicsItem list"
  m_repo :: ShapeRepository

text \<open>A handler returns its \<open>bool\<close>, the message it leaves in \<open>msg\<close>, and the new state.\<close>

type_synonym result = "bool \<times> string \<times> CommandDispatcher"

definition requireName :: "Command \<Rightarrow> string + string" where
  "requireName cmd =
     (case args cmd ''name'' of
        None \<Rightarrow> Inl ''Missing -name flag.''
      | Some v \<Rightarrow>
          (let nameOut = trimmed v
           in if nameOut = [] then Inl ''Name cannot be empty.'' else Inr nameOut))"

definition validateUniqueName :: "ShapeRepository \<Rightarrow> string \<Rightarrow> string + unit" where
  "validateUniqueName repo nm =
     (if repo_contains repo nm
      then Inl (qarg ''An object named '%1' already exists. Choose a unique name.'' nm)
      else Inr ())"

definition requireCoord :: "Command \<Rightarrow> string \<Rightarrow> string + QPointF" where
  "requireCoord cmd key =
     (case coords cmd key of
        None \<Rightarrow> Inl (qarg ''Missing -%1 coordinate.'' key)
      | Some p \<Rightarrow> Inr p)"

text \<open>Adding a shape: \<open>m_scene->addItem(shape->graphicsItem())\<close>, then \<open>m_repo->add\<close>.\<close>

definition register_shape :: "CommandDispatcher \<Rightarrow> string \<Rightarrow> ShapeBase \<Rightarrow> CommandDispatcher" where
  "register_shape st nm shape =
     st\<lparr>m_scene := m_scene st @ [graphicsItem shape], m_repo := repo_add (m_repo st) nm shape\<rparr>"

definition handleCreateLine :: "env \<Rightarrow> Command \<Rightarrow> CommandDispatcher \<Rightarrow> result" where
  "handleCreateLine e cmd st =
     (case requireName cmd of
        Inl msg \<Rightarrow> (False, msg, st)
      | Inr nm \<Rightarrow>
     (case validateUniqueName (m_repo st) nm of
        Inl msg \<Rightarrow> (False, msg, st)
      | Inr _ \<Rightarrow>
     (case requireCoord cmd ''coord_1'' of
        Inl msg \<Rightarrow> (False, msg, st)
      | Inr p1 \<Rightarrow>
     (case requireCoord cmd ''coord_2'' of
        Inl msg \<Rightarrow> (False, msg, st)
      | Inr p2 \<Rightarrow>
          (True,
           qarg (qarg (qarg (qarg (qarg ''Line '%1' created from (%2,%3) to (%4,%5).'' nm)
             (number e (xp p1))) (number e (yp p1))) (number e (xp p2))) (number e (yp p2)),
           register_shape st nm (LineShape nm p1 p2))))))"

definition handleCreateTriangle :: "Command \<Rightarrow> CommandDispatcher \<Rightarrow> result" where
  "handleCreateTriangle cmd st =
     (case requireName cmd of
        Inl msg \<Rightarrow> (False, msg, st)
      | Inr nm \<Rightarrow>
     (case validateUniqueName (m_repo st) nm of
        Inl msg \<Rightarrow> (False, msg, st)
      | Inr _ \<Rightarrow>
     (case requireCoord cmd ''coord_1'' of
        Inl msg \<Rightarrow> (False, msg, st)
      | Inr p1 \<Rightarrow>
     (case requireCoord cmd ''coord_2'' of
        Inl msg \<Rightarrow> (False, msg, st)
      | Inr p2 \<Rightarrow>
     (case requireCoord cmd ''coord_3'' of
        Inl msg \<Rightarrow> (False, msg, st)
      | Inr p3 \<Rightarrow>
          if areCollinear p1 p2 p3 eps_default
          then (False, ''Triangle vertices are collinear. Provide non-collinear points.'', st)
          else (True, qarg ''Triangle '%1' created.'' nm,
                register_shape st nm (TriangleShape nm p1 p2 p3)))))))"

text \<open>
  \<open>hasFour\<close>: all of \<open>coord_1\<close> to \<open>coord_4\<close> are in \<open>cmd.coords\<close>.
\<close>

definition hasFour :: "Command \<Rightarrow> bool" where
  "hasFour cmd =
     (coords cmd ''coord_1'' \<noteq> None \<and> coords cmd ''coord_2'' \<noteq> None \<and>
      coords cmd ''coord_3'' \<noteq> None \<and> coords cmd ''coord_4'' \<noteq> None)"

text \<open>
  \<open>qFuzzyCompare\<close> on doubles, as Qt defines it:
  \<open>qAbs(p1 - p2) * 1000000000000. <= qMin(qAbs(p1), qAbs(p2))\<close>.
\<close>

definition qFuzzyCompare :: "real \<Rightarrow> real \<Rightarrow> bool" where
  "qFuzzyCompare p1 p2 = (\<bar>p1 - p2\<bar> * 1000000000000 \<le> min \<bar>p1\<bar> \<bar>p2\<bar>)"

text \<open>
  The value of \<open>cmd.coords[key]\<close> on the constant command: the stored point, or a
  default-constructed \<open>QPointF\<close> (the origin) for a key that is absent.
\<close>

definition coord_value :: "Command \<Rightarrow> string \<Rightarrow> QPointF" where
  "coord_value cmd key = (case coords cmd key of None \<Rightarrow> pt 0 0 | Some p \<Rightarrow> p)"

text \<open>
  \<open>handleCreateRectangle\<close>. \<open>None\<close>: the constructor read out of range, which does not
  happen with the four corners passed here (lemma \<open>handleCreateRectangle_returns\<close>).
\<close>

definition handleCreateRectangle :: "Command \<Rightarrow> CommandDispatcher \<Rightarrow> result option" where
  "handleCreateRectangle cmd st =
     (case requireName cmd of
        Inl msg \<Rightarrow> Some (False, msg, st)
      | Inr nm \<Rightarrow>
     (case validateUniqueName (m_repo st) nm of
        Inl msg \<Rightarrow> Some (False, msg, st)
      | Inr _ \<Rightarrow>
          if hasFour cmd then
            (let p1 = coord_value cmd ''coord_1'';
                 p2 = coord_value cmd ''coord_2'';
                 p3 = coord_value cmd ''coord_3'';
                 p4 = coord_value cmd ''coord_4''
             in if \<not> isRectangle p1 p2 p3 p4 eps_default
                then Some (False, ''Provided corners do not form a rectangle.'', st)
                else (case RectangleShape_points nm [p1, p2, p3, p4] of
                        None \<Rightarrow> None
                      | Some shape \<Rightarrow>
                          Some (True, qarg ''Rectangle '%1' created from four corners.'' nm,
                                register_shape st nm shape)))
          else
            (case requireCoord cmd ''coord_1'' of
               Inl msg \<Rightarrow> Some (False, msg, st)
             | Inr p1 \<Rightarrow>
            (case requireCoord cmd ''coord_2'' of
               Inl msg \<Rightarrow> Some (False, msg, st)
             | Inr p2 \<Rightarrow>
                 if qFuzzyCompare (xp p1) (xp p2) \<or> qFuzzyCompare (yp p1) (yp p2)
                 then Some (False,
                   ''Diagonal points must differ in both x and y for a valid rectangle.'', st)
                 else Some (True, qarg ''Rectangle '%1' created from diagonal points.'' nm,
                            register_shape st nm (RectangleShape_diagonal nm p1 p2))))))"

definition handleCreateSquare :: "Command \<Rightarrow> CommandDispatcher \<Rightarrow> result" where
  "handleCreateSquare cmd st =
     (case requireName cmd of
        Inl msg \<Rightarrow> (False, msg, st)
      | Inr nm \<Rightarrow>
     (case validateUniqueName (m_repo st) nm of
        Inl msg \<Rightarrow> (False, msg, st)
      | Inr _ \<Rightarrow>
          if hasFour cmd then
            (let p1 = coord_value cmd ''coord_1'';
                 p2 = coord_value cmd ''coord_2'';
                 p3 = coord_value cmd ''coord_3'';
                 p4 = coord_value cmd ''coord_4''
             in if \<not> isSquare p1 p2 p3 p4 eps_default
                then (False, ''Provided vertices do not form a square.'', st)
                else (True, qarg ''Square '%1' created from four vertices.'' nm,
                      register_shape st nm (SquareShape_vertices nm [p1, p2, p3, p4])))
          else
            (case requireCoord cmd ''coord_1'' of
               Inl msg \<Rightarrow> (False, msg, st)
             | Inr p1 \<Rightarrow>
            (case requireCoord cmd ''coord_2'' of
               Inl msg \<Rightarrow> (False, msg, st)
             | Inr p2 \<Rightarrow>
                 if \<not> isValidSquareDiagonal p1 p2 eps_diagonal
                 then (False, ''Diagonal points do not define a valid square.'', st)
                 else (True, qarg ''Square '%1' created from diagonal points.'' nm,
                       register_shape st nm (SquareShape_diagonal nm (dpt p1) (dpt p2)))))))"

text \<open>
  \<open>handleConnect\<close>. The two-argument \<open>arg(n1, n2)\<close> fills both markers in one pass.
\<close>

definition handleConnect :: "env \<Rightarrow> Command \<Rightarrow> CommandDispatcher \<Rightarrow> result" where
  "handleConnect e cmd st =
     (case args cmd ''object_name_1'' of
        None \<Rightarrow> (False, ''Missing -object_name_1 or -object_name_2.'', st)
      | Some n1 \<Rightarrow>
     (case args cmd ''object_name_2'' of
        None \<Rightarrow> (False, ''Missing -object_name_1 or -object_name_2.'', st)
      | Some n2 \<Rightarrow>
     (case repo_get (m_repo st) n1 of
        None \<Rightarrow> (False, ''One or both objects not found.'', st)
      | Some s1 \<Rightarrow>
     (case repo_get (m_repo st) n2 of
        None \<Rightarrow> (False, ''One or both objects not found.'', st)
      | Some s2 \<Rightarrow>
          (True,
           ''Connected '' @ [CHR 0x27] @ n1 @ [CHR 0x27] @ '' and '' @ [CHR 0x27] @ n2 @
             [CHR 0x27] @ '' by their centers.'',
           st\<lparr>m_scene := m_scene st @ [DashedLineItem (center e s1) (center e s2)]\<rparr>)))))"

text \<open>
  The loop of \<open>handleExecuteFile\<close> over the lines still to read. \<open>exec\<close> is \<open>execute\<close>
  as the loop calls it, with an empty \<open>execMsg\<close>; \<open>None\<close> is a call that does not return.
\<close>

fun script_loop ::
  "(Command \<Rightarrow> string \<Rightarrow> CommandDispatcher \<Rightarrow> result option) \<Rightarrow> string list \<Rightarrow>
   nat \<Rightarrow> nat \<Rightarrow> nat \<Rightarrow> string \<Rightarrow> CommandDispatcher \<Rightarrow>
   (nat \<times> nat \<times> string \<times> CommandDispatcher) option" where
  "script_loop exec [] lineNo successCount failureCount msg st =
     Some (successCount, failureCount, msg, st)"
| "script_loop exec (l # ls) lineNo successCount failureCount msg st =
     (let raw = trimmed l; lineNo = lineNo + 1
      in if raw = [] then script_loop exec ls lineNo successCount failureCount msg st
         else
           (case parse raw of
              Inl parseError \<Rightarrow>
                script_loop exec ls lineNo successCount (failureCount + 1)
                  (msg @ qarg (qarg_int ''\<newline>Line %1 parse error: %2'' lineNo) parseError) st
            | Inr c \<Rightarrow>
                (case exec c [] st of
                   None \<Rightarrow> None
                 | Some (ok, execMsg, st') \<Rightarrow>
                     if \<not> ok
                     then script_loop exec ls lineNo successCount (failureCount + 1)
                            (msg @ qarg (qarg_int ''\<newline>Line %1 failed: %2'' lineNo) execMsg) st'
                     else script_loop exec ls lineNo (successCount + 1) failureCount msg st')))"

text \<open>\<open>handleExecuteFile\<close>; \<open>msg\<close> is the caller's message, which the loop appends to.\<close>

definition handleExecuteFile ::
  "env \<Rightarrow> (Command \<Rightarrow> string \<Rightarrow> CommandDispatcher \<Rightarrow> result option) \<Rightarrow>
   Command \<Rightarrow> string \<Rightarrow> CommandDispatcher \<Rightarrow> result option" where
  "handleExecuteFile e exec cmd msg st =
     (case args cmd ''file_path'' of
        None \<Rightarrow> Some (False, ''Missing -file_path.'', st)
      | Some path \<Rightarrow>
          (case files e path of
             None \<Rightarrow> Some (False, qarg ''Failed to open script file: %1'' path, st)
           | Some ls \<Rightarrow>
               (case script_loop exec ls 0 0 0 msg st of
                  None \<Rightarrow> None
                | Some (successCount, failureCount, msg', st') \<Rightarrow>
                    Some (failureCount = 0,
                          qarg (qarg_int (qarg_int
                            ''Script executed: %1 successes, %2 failures.%3'' successCount)
                            failureCount) msg',
                          st'))))"

text \<open>
  \<open>execute\<close>. A script may name a script, itself included, so the recursion through
  \<open>handleExecuteFile\<close> need not end. The first argument after the environment bounds
  the depth of nested calls of \<open>execute\<close>; \<open>None\<close> is a call that needs more.
\<close>

primrec execute ::
  "env \<Rightarrow> nat \<Rightarrow> Command \<Rightarrow> string \<Rightarrow> CommandDispatcher \<Rightarrow> result option" where
  "execute e 0 = (\<lambda>cmd message st. None)"
| "execute e (Suc n) = (\<lambda>cmd message st.
     if name cmd = ''create_line'' then Some (handleCreateLine e cmd st)
     else if name cmd = ''create_triangle'' then Some (handleCreateTriangle cmd st)
     else if name cmd = ''create_rectangle'' then handleCreateRectangle cmd st
     else if name cmd = ''create_square'' then Some (handleCreateSquare cmd st)
     else if name cmd = ''connect'' then Some (handleConnect e cmd st)
     else if name cmd = ''execute_file'' then handleExecuteFile e (execute e n) cmd message st
     else Some (False, qarg ''Unknown command '%1'.'' (name cmd), st))"


section \<open>Notions used to state the properties\<close>

text \<open>A vector of points in the order of the comparator.\<close>

definition pt_sorted :: "QPointF list \<Rightarrow> bool" where
  "pt_sorted ps = sorted_wrt (\<lambda>a b. \<not> pt_less b a) ps"

text \<open>
  A real number that a double operation returns as it is: its magnitude is below the
  bound from which the result is an infinity.
\<close>

definition in_range :: "real \<Rightarrow> bool" where
  "in_range r = (\<bar>r\<bar> < overflow_threshold)"

text \<open>A computed point with two finite coordinates.\<close>

fun is_finite :: "double \<Rightarrow> bool" where
  "is_finite (Finite a) = True"
| "is_finite PosInf = False"
| "is_finite NegInf = False"
| "is_finite NaN = False"

definition finite_point :: "DPoint \<Rightarrow> bool" where
  "finite_point p = (is_finite (dxp p) \<and> is_finite (dyp p))"

text \<open>A point with both coordinates at most \<open>c\<close> in magnitude.\<close>

definition coords_within :: "real \<Rightarrow> QPointF \<Rightarrow> bool" where
  "coords_within c p = (\<bar>xp p\<bar> \<le> c \<and> \<bar>yp p\<bar> \<le> c)"

text \<open>The midpoint of two points and the arithmetic mean of three.\<close>

definition midpoint :: "QPointF \<Rightarrow> QPointF \<Rightarrow> QPointF" where
  "midpoint p q = pt ((xp p + xp q) / 2) ((yp p + yp q) / 2)"

definition centroid :: "QPointF \<Rightarrow> QPointF \<Rightarrow> QPointF \<Rightarrow> QPointF" where
  "centroid p q r = pt ((xp p + xp q + xp r) / 3) ((yp p + yp q + yp r) / 3)"

text \<open>
  The corners of the axis-aligned bounding box of a non-empty set of points, counted
  from the corner of the least coordinates: \<open>(minX, minY)\<close>, \<open>(maxX, minY)\<close>,
  \<open>(maxX, maxY)\<close>, \<open>(minX, maxY)\<close>.
\<close>

definition bounding_box :: "QPointF list \<Rightarrow> QPointF list" where
  "bounding_box ps =
     [pt (Min (xp ` set ps)) (Min (yp ` set ps)), pt (Max (xp ` set ps)) (Min (yp ` set ps)),
      pt (Max (xp ` set ps)) (Max (yp ` set ps)), pt (Min (xp ` set ps)) (Max (yp ` set ps))]"

text \<open>
  What happens to one line of a script: it is skipped, it fails to parse, its command
  is dispatched and fails, or its command is dispatched and succeeds. The two failures
  carry the message.
\<close>

datatype line_outcome = Skipped | ParseFailed string | DispatchFailed string | Succeeded

fun is_failure :: "line_outcome \<Rightarrow> bool" where
  "is_failure (ParseFailed m) = True"
| "is_failure (DispatchFailed m) = True"
| "is_failure Skipped = False"
| "is_failure Succeeded = False"

definition successes :: "line_outcome list \<Rightarrow> nat" where
  "successes os = length (filter (\<lambda>x. x = Succeeded) os)"

definition failures :: "line_outcome list \<Rightarrow> nat" where
  "failures os = length (filter is_failure os)"

text \<open>
  The outcome of every line of a script, in order, each command dispatched in the state
  the lines before it left; and the state after the last line. \<open>None\<close> when a
  dispatched command does not return.
\<close>

fun line_outcomes ::
  "(Command \<Rightarrow> string \<Rightarrow> CommandDispatcher \<Rightarrow> result option) \<Rightarrow> string list \<Rightarrow>
   CommandDispatcher \<Rightarrow> (line_outcome list \<times> CommandDispatcher) option" where
  "line_outcomes exec [] st = Some ([], st)"
| "line_outcomes exec (l # ls) st =
     (if trimmed l = [] then
        (case line_outcomes exec ls st of
           None \<Rightarrow> None
         | Some (os, st') \<Rightarrow> Some (Skipped # os, st'))
      else
        (case parse (trimmed l) of
           Inl parseError \<Rightarrow>
             (case line_outcomes exec ls st of
                None \<Rightarrow> None
              | Some (os, st') \<Rightarrow> Some (ParseFailed parseError # os, st'))
         | Inr c \<Rightarrow>
             (case exec c [] st of
                None \<Rightarrow> None
              | Some (ok, execMsg, st1) \<Rightarrow>
                  (case line_outcomes exec ls st1 of
                     None \<Rightarrow> None
                   | Some (os, st') \<Rightarrow>
                       Some ((if ok then Succeeded else DispatchFailed execMsg) # os, st')))))"

text \<open>
  The diagnostic entries of a run: one for each failed line, with the number of the
  line in the file; \<open>n\<close> lines precede the first outcome.
\<close>

fun diagnostics :: "nat \<Rightarrow> line_outcome list \<Rightarrow> string list" where
  "diagnostics n [] = []"
| "diagnostics n (ParseFailed m # os) =
     (''\<newline>Line '' @ show_nat (n + 1) @ '' parse error: '' @ m) # diagnostics (n + 1) os"
| "diagnostics n (DispatchFailed m # os) =
     (''\<newline>Line '' @ show_nat (n + 1) @ '' failed: '' @ m) # diagnostics (n + 1) os"
| "diagnostics n (Skipped # os) = diagnostics (n + 1) os"
| "diagnostics n (Succeeded # os) = diagnostics (n + 1) os"

text \<open>
  Scripts that nest at most \<open>n\<close> deep: no line of the script reaches \<open>execute\<close> when
  \<open>n = 0\<close>, and every script that a line of it opens nests at most \<open>n - 1\<close> deep
  otherwise.
\<close>

definition opens :: "env \<Rightarrow> string \<Rightarrow> string list option" where
  "opens e l =
     (case parse (trimmed l) of
        Inl _ \<Rightarrow> None
      | Inr c \<Rightarrow>
          if name c = ''execute_file''
          then (case args c ''file_path'' of None \<Rightarrow> None | Some path \<Rightarrow> files e path)
          else None)"

primrec nests_within :: "env \<Rightarrow> nat \<Rightarrow> string list \<Rightarrow> bool" where
  "nests_within e 0 ls =
     (\<forall>l \<in> set ls. trimmed l = [] \<or> (case parse (trimmed l) of Inl _ \<Rightarrow> True | Inr _ \<Rightarrow> False))"
| "nests_within e (Suc n) ls =
     (\<forall>l \<in> set ls. case opens e l of None \<Rightarrow> True | Some ls' \<Rightarrow> nests_within e n ls')"


text \<open>
  The names in the repository as the dispatcher keeps them: none is empty, none has white
  space at its ends.
\<close>

definition stored_names_ok :: "CommandDispatcher \<Rightarrow> bool" where
  "stored_names_ok st = (\<forall>nm. m_repo st nm \<noteq> None \<longrightarrow> nm \<noteq> [] \<and> trimmed nm = nm)"

section \<open>Example inputs\<close>

text \<open>The dispatcher at start-up: an empty scene and an empty repository.\<close>

definition empty_dispatcher :: CommandDispatcher where
  "empty_dispatcher = \<lparr>m_scene = [], m_repo = Map.empty\<rparr>"

text \<open>
  An environment with two script files. Numbers are printed as \<open>QString::arg(double)\<close>
  prints a whole number from 0 up to 999999: its decimal digits. The bounding rectangle
  of a polygon item is the one of an axis-aligned rectangle under a pen of width 2: the
  polygon's own, grown by 1 on every side.
\<close>

definition batch_lines :: "string list" where
  "batch_lines =
     [''create_line -name l1 -coord_1 {0,0} -coord_2 {5,2}'',
      ''bogus'',
      ''create_triangle -name t1 -coord_1 {0,0} -coord_2 {3,0} -coord_3 {0,4}'',
      ''create_line -name l1 -coord_1 {0,0} -coord_2 {1,1}'',
      ''connect -object_name_1 l1 -object_name_2 t1'']"

definition example_env :: env where
  "example_env =
     \<lparr>files = (\<lambda>path. if path = ''comment.txt'' then Some [''# comment'']
                      else if path = ''batch.txt'' then Some batch_lines
                      else None),
      number = (\<lambda>r. show_nat (nat \<lfloor>r\<rfloor>)),
      polygon_item_rect = (\<lambda>poly.
        (let r = polygon_boundingRect poly
         in \<lparr>rx = dsub (rx r) (Finite 1), ry = dsub (ry r) (Finite 1),
             rw = dadd (rw r) (Finite 2), rh = dadd (rh r) (Finite 2)\<rparr>))\<rparr>"

text \<open>The commands that the lines named in the comments parse to.\<close>

definition cmd_line :: Command where
  \<comment> \<open>\<^verbatim>\<open>create_line -name l1 -coord_1 {0,0} -coord_2 {5,2}\<close>\<close>
  "cmd_line =
     \<lparr>name = ''create_line'', args = [''name'' \<mapsto> ''l1''],
      coords = [''coord_1'' \<mapsto> pt 0 0, ''coord_2'' \<mapsto> pt 5 2], errors = []\<rparr>"

definition cmd_triangle :: Command where
  \<comment> \<open>\<^verbatim>\<open>create_triangle -name t1 -coord_1 {0,0} -coord_2 {3,0} -coord_3 {0,4}\<close>\<close>
  "cmd_triangle =
     \<lparr>name = ''create_triangle'', args = [''name'' \<mapsto> ''t1''],
      coords = [''coord_1'' \<mapsto> pt 0 0, ''coord_2'' \<mapsto> pt 3 0, ''coord_3'' \<mapsto> pt 0 4],
      errors = []\<rparr>"

definition cmd_rectangle_flat :: Command where
  \<comment> \<open>\<^verbatim>\<open>create_rectangle -name r1 -coord_1 {0,0} -coord_2 {3,0}\<close>\<close>
  "cmd_rectangle_flat =
     \<lparr>name = ''create_rectangle'', args = [''name'' \<mapsto> ''r1''],
      coords = [''coord_1'' \<mapsto> pt 0 0, ''coord_2'' \<mapsto> pt 3 0], errors = []\<rparr>"

definition cmd_rectangle_diagonal :: Command where
  \<comment> \<open>\<^verbatim>\<open>create_rectangle -name rect1 -coord_1 {3,0} -coord_2 {0,4}\<close>\<close>
  "cmd_rectangle_diagonal =
     \<lparr>name = ''create_rectangle'', args = [''name'' \<mapsto> ''rect1''],
      coords = [''coord_1'' \<mapsto> pt 3 0, ''coord_2'' \<mapsto> pt 0 4], errors = []\<rparr>"

definition cmd_rectangle_corners :: Command where
  \<comment> \<open>\<^verbatim>\<open>create_rectangle -name rect2 -coord_1 {3,4} -coord_2 {0,0} -coord_3 {0,4} -coord_4 {3,0}\<close>\<close>
  "cmd_rectangle_corners =
     \<lparr>name = ''create_rectangle'', args = [''name'' \<mapsto> ''rect2''],
      coords = [''coord_1'' \<mapsto> pt 3 4, ''coord_2'' \<mapsto> pt 0 0, ''coord_3'' \<mapsto> pt 0 4,
                ''coord_4'' \<mapsto> pt 3 0],
      errors = []\<rparr>"

definition cmd_rectangle_point :: Command where
  \<comment> \<open>\<^verbatim>\<open>create_rectangle -name dot -coord_1 {1,1} -coord_2 {1,1} -coord_3 {1,1} -coord_4 {1,1}\<close>\<close>
  "cmd_rectangle_point =
     \<lparr>name = ''create_rectangle'', args = [''name'' \<mapsto> ''dot''],
      coords = [''coord_1'' \<mapsto> pt 1 1, ''coord_2'' \<mapsto> pt 1 1, ''coord_3'' \<mapsto> pt 1 1,
                ''coord_4'' \<mapsto> pt 1 1],
      errors = []\<rparr>"

definition cmd_square_diagonal :: Command where
  \<comment> \<open>\<^verbatim>\<open>create_square -name sq1 -coord_1 {0,0} -coord_2 {3,3}\<close>\<close>
  "cmd_square_diagonal =
     \<lparr>name = ''create_square'', args = [''name'' \<mapsto> ''sq1''],
      coords = [''coord_1'' \<mapsto> pt 0 0, ''coord_2'' \<mapsto> pt 3 3], errors = []\<rparr>"

text \<open>
  Two large coordinates, both within the range of a double, and the commands that carry
  them.
\<close>

definition ten_to_308 :: real where
  "ten_to_308 = 10 ^ 308"

definition ten_to_200 :: real where
  "ten_to_200 = 10 ^ 200"

definition cmd_line_huge :: Command where
  \<comment> \<open>\<open>create_line -name big -coord_1 {x,0} -coord_2 {x,0}\<close>, \<open>x\<close> the digits of \<open>ten_to_308\<close>\<close>
  "cmd_line_huge =
     \<lparr>name = ''create_line'', args = [''name'' \<mapsto> ''big''],
      coords = [''coord_1'' \<mapsto> pt ten_to_308 0, ''coord_2'' \<mapsto> pt ten_to_308 0],
      errors = []\<rparr>"

definition cmd_square_huge :: Command where
  \<comment> \<open>\<open>create_square -name big -coord_1 {0,0} -coord_2 {x,0}\<close>, \<open>x\<close> the digits of \<open>ten_to_200\<close>\<close>
  "cmd_square_huge =
     \<lparr>name = ''create_square'', args = [''name'' \<mapsto> ''big''],
      coords = [''coord_1'' \<mapsto> pt 0 0, ''coord_2'' \<mapsto> pt ten_to_200 0], errors = []\<rparr>"

definition cmd_square_vertices :: Command where
  \<comment> \<open>\<^verbatim>\<open>create_square -name sq2 -coord_1 {0,0} -coord_2 {3,3} -coord_3 {3,0} -coord_4 {0,3}\<close>\<close>
  "cmd_square_vertices =
     \<lparr>name = ''create_square'', args = [''name'' \<mapsto> ''sq2''],
      coords = [''coord_1'' \<mapsto> pt 0 0, ''coord_2'' \<mapsto> pt 3 3, ''coord_3'' \<mapsto> pt 3 0,
                ''coord_4'' \<mapsto> pt 0 3],
      errors = []\<rparr>"

definition cmd_square_diamond :: Command where
  \<comment> \<open>\<^verbatim>\<open>create_square -name s -coord_1 {1,0} -coord_2 {2,1} -coord_3 {1,2} -coord_4 {0,1}\<close>\<close>
  "cmd_square_diamond =
     \<lparr>name = ''create_square'', args = [''name'' \<mapsto> ''s''],
      coords = [''coord_1'' \<mapsto> pt 1 0, ''coord_2'' \<mapsto> pt 2 1, ''coord_3'' \<mapsto> pt 1 2,
                ''coord_4'' \<mapsto> pt 0 1],
      errors = []\<rparr>"

definition cmd_square_duplicate :: Command where
  \<comment> \<open>\<^verbatim>\<open>create_square -name l1 -coord_1 {0,0} -coord_2 {3,3}\<close>\<close>
  "cmd_square_duplicate =
     \<lparr>name = ''create_square'', args = [''name'' \<mapsto> ''l1''],
      coords = [''coord_1'' \<mapsto> pt 0 0, ''coord_2'' \<mapsto> pt 3 3], errors = []\<rparr>"

definition cmd_connect_missing :: Command where
  \<comment> \<open>\<^verbatim>\<open>connect -object_name_1 t1 -object_name_2 r_missing\<close>\<close>
  "cmd_connect_missing =
     \<lparr>name = ''connect'',
      args = [''object_name_1'' \<mapsto> ''t1'', ''object_name_2'' \<mapsto> ''r_missing''],
      coords = Map.empty, errors = []\<rparr>"

definition cmd_connect :: Command where
  \<comment> \<open>\<^verbatim>\<open>connect -object_name_1 l1 -object_name_2 t1\<close>\<close>
  "cmd_connect =
     \<lparr>name = ''connect'',
      args = [''object_name_1'' \<mapsto> ''l1'', ''object_name_2'' \<mapsto> ''t1''],
      coords = Map.empty, errors = []\<rparr>"

definition cmd_execute_comment :: Command where
  \<comment> \<open>\<^verbatim>\<open>execute_file -file_path comment.txt\<close>\<close>
  "cmd_execute_comment =
     \<lparr>name = ''execute_file'', args = [''file_path'' \<mapsto> ''comment.txt''],
      coords = Map.empty, errors = []\<rparr>"

definition cmd_execute_batch :: Command where
  \<comment> \<open>\<^verbatim>\<open>execute_file -file_path batch.txt\<close>\<close>
  "cmd_execute_batch =
     \<lparr>name = ''execute_file'', args = [''file_path'' \<mapsto> ''batch.txt''],
      coords = Map.empty, errors = []\<rparr>"

text \<open>The dispatcher after the line \<open>l1\<close>, and after the triangle \<open>t1\<close> as well.\<close>

definition with_line :: CommandDispatcher where
  "with_line = register_shape empty_dispatcher ''l1'' (LineShape ''l1'' (pt 0 0) (pt 5 2))"

definition with_line_triangle :: CommandDispatcher where
  "with_line_triangle =
     register_shape with_line ''t1'' (TriangleShape ''t1'' (pt 0 0) (pt 3 0) (pt 0 4))"

section \<open>Points\<close>

lemma pt_eta [simp]: "pt (xp p) (yp p) = p"
  by (simp add: pt_def)

lemma xp_pt [simp]: "xp (pt a b) = a"
  by (simp add: pt_def)

lemma yp_pt [simp]: "yp (pt a b) = b"
  by (simp add: pt_def)

section \<open>Doubles\<close>

lemma dxp_dpoint [simp]: "dxp (dpoint a b) = a"
  by (simp add: dpoint_def)

lemma dyp_dpoint [simp]: "dyp (dpoint a b) = b"
  by (simp add: dpoint_def)

lemma dpoint_eq_iff [simp]: "dpoint a b = dpoint c d \<longleftrightarrow> a = c \<and> b = d"
  by (simp add: dpoint_def)

lemma dxp_dpt [simp]: "dxp (dpt p) = Finite (xp p)"
  by (simp add: dpt_def)

lemma dyp_dpt [simp]: "dyp (dpt p) = Finite (yp p)"
  by (simp add: dpt_def)

lemma dpt_pt: "dpt (pt a b) = dpoint (Finite a) (Finite b)"
  by (simp add: dpt_def)

lemma finite_point_dpt [simp]: "finite_point (dpt p)"
  by (simp add: finite_point_def)

lemma overflow_threshold_gt: "10 ^ 307 < overflow_threshold"
  by (simp add: overflow_threshold_def)

lemma overflow_threshold_pos: "0 < overflow_threshold"
  using overflow_threshold_gt by (simp add: order.strict_trans2)

lemma round_double_in_range: "in_range r \<Longrightarrow> round_double r = Finite r"
  by (auto simp: round_double_def in_range_def)

lemma dsub_Finite [simp]: "dsub (Finite a) (Finite b) = round_double (a - b)"
  by (simp add: dsub_def)

lemma round_double_0 [simp]: "round_double 0 = Finite 0"
  using overflow_threshold_pos by (simp add: round_double_def)

lemma in_range_le: "\<bar>r\<bar> \<le> \<bar>s\<bar> \<Longrightarrow> in_range s \<Longrightarrow> in_range r"
  by (simp add: in_range_def)

lemma round_double_le: "\<bar>r\<bar> \<le> \<bar>s\<bar> \<Longrightarrow> in_range s \<Longrightarrow> round_double r = Finite r"
  by (simp add: round_double_in_range in_range_le)

lemma dadd_NaN_right [simp]: "dadd a NaN = NaN"
  by (cases a) simp_all

lemma dsub_NaN_right [simp]: "dsub a NaN = NaN"
  by (simp add: dsub_def)

lemma in_range_small: "\<bar>r\<bar> \<le> 1000 \<Longrightarrow> in_range r"
  using overflow_threshold_gt by (simp add: in_range_def)

lemma round_double_small: "\<bar>r\<bar> \<le> 1000 \<Longrightarrow> round_double r = Finite r"
  by (simp add: round_double_in_range in_range_small)

text \<open>The square of a coordinate difference is a real number or plus infinity.\<close>

lemma dmul_round_double_self:
  "dmul (round_double a) (round_double a) = (if in_range a \<and> in_range (a * a) then Finite (a * a) else PosInf)"
proof (cases "in_range a")
  case True
  have "\<not> a * a \<le> - overflow_threshold"
    using overflow_threshold_pos zero_le_square[of a] by linarith
  with True show ?thesis
    by (auto simp: round_double_in_range) (auto simp: round_double_def in_range_def)
next
  case False
  then have "round_double a = PosInf \<or> round_double a = NegInf"
    by (auto simp: round_double_def in_range_def)
  with False show ?thesis by auto
qed

text \<open>
  A sum that is divided by a number of at least one: the quotient is a real number
  exactly when the sum has not overflowed.
\<close>

lemma ddiv_round_double:
  assumes "1 \<le> k"
  shows "ddiv (round_double s) (Finite k) = Finite t \<longleftrightarrow> in_range s \<and> t = s / k"
proof (cases "in_range s")
  case True
  have "\<bar>s / k\<bar> \<le> \<bar>s\<bar>"
    using assms mult_right_mono[of 1 k "\<bar>s\<bar>"] by (simp add: field_simps)
  with True have "in_range (s / k)" by (simp add: in_range_def)
  with True assms show ?thesis
    by (auto simp: round_double_in_range)
next
  case False
  then have "round_double s = PosInf \<or> round_double s = NegInf"
    by (auto simp: round_double_def in_range_def)
  with False assms show ?thesis by auto
qed

lemma ddiv_dadd_round_double:
  assumes "1 \<le> k"
  shows "ddiv (dadd (round_double s) (Finite c)) (Finite k) = Finite t \<longleftrightarrow>
           in_range s \<and> in_range (s + c) \<and> t = (s + c) / k"
proof (cases "in_range s")
  case True
  then show ?thesis
    using ddiv_round_double[OF assms, of "s + c" t] by (simp add: round_double_in_range)
next
  case False
  then have "round_double s = PosInf \<or> round_double s = NegInf"
    by (auto simp: round_double_def in_range_def)
  with False assms show ?thesis by auto
qed

section \<open>Sorting by the comparator\<close>

lemma mset_insert_pt: "mset (insert_pt p qs) = add_mset p (mset qs)"
  by (induction qs) auto

lemma mset_sort_pts: "mset (sort_pts ps) = mset ps"
  by (induction ps) (auto simp: mset_insert_pt)

lemma set_insert_pt: "set (insert_pt p qs) = insert p (set qs)"
  by (induction qs) auto

lemma pt_less_asym: "pt_less a b \<Longrightarrow> \<not> pt_less b a"
  by (auto simp: pt_less_def split: if_splits)

lemma pt_less_total: "\<not> pt_less a b \<Longrightarrow> \<not> pt_less b a \<Longrightarrow> a = (b::QPointF)"
  by (auto simp: pt_less_def split: if_splits)

lemma pt_not_less_trans: "\<not> pt_less b a \<Longrightarrow> \<not> pt_less c b \<Longrightarrow> \<not> pt_less c a"
  by (auto simp: pt_less_def split: if_splits)

lemma pt_sorted_insert_pt: "pt_sorted qs \<Longrightarrow> pt_sorted (insert_pt p qs)"
proof (induction qs)
  case Nil
  then show ?case by (simp add: pt_sorted_def)
next
  case (Cons q qs)
  then show ?case
    by (auto simp: pt_sorted_def set_insert_pt dest: pt_less_asym pt_not_less_trans)
qed

lemma pt_sorted_sort_pts: "pt_sorted (sort_pts ps)"
  by (induction ps) (auto simp: pt_sorted_insert_pt, simp add: pt_sorted_def)

text \<open>Two sorted vectors with the same points are the same vector.\<close>

lemma pt_sorted_unique:
  "pt_sorted xs \<Longrightarrow> pt_sorted ys \<Longrightarrow> mset xs = mset ys \<Longrightarrow> xs = ys"
proof (induction xs arbitrary: ys)
  case Nil
  then show ?case by simp
next
  case (Cons x xs)
  then obtain y ys' where ys: "ys = y # ys'" by (cases ys) auto
  have x_in: "x \<in> set ys"
    using Cons.prems(3) by (metis list.set_intros(1) mset_eq_setD)
  have y_in: "y \<in> set (x # xs)"
    using Cons.prems(3) ys by (metis list.set_intros(1) mset_eq_setD)
  have xy: "x = y"
  proof (rule pt_less_total)
    show "\<not> pt_less y x" using y_in Cons.prems(1)
      by (auto simp: pt_sorted_def dest: pt_less_asym)
    show "\<not> pt_less x y" using x_in Cons.prems(2) ys
      by (auto simp: pt_sorted_def dest: pt_less_asym)
  qed
  moreover have "xs = ys'"
    using Cons.IH[of ys'] Cons.prems ys xy by (simp add: pt_sorted_def)
  ultimately show ?case using ys by simp
qed

text \<open>Whatever algorithm \<open>std::sort\<close> runs, its result is the one of \<open>sort_pts\<close>.\<close>

lemma sort_pts_unique: "mset ys = mset xs \<Longrightarrow> pt_sorted ys \<Longrightarrow> sort_pts xs = ys"
  using pt_sorted_unique[OF pt_sorted_sort_pts, of ys xs] by (simp add: mset_sort_pts)

lemma sort_pts_perm: "mset xs = mset ys \<Longrightarrow> sort_pts xs = sort_pts ys"
  by (metis sort_pts_unique pt_sorted_sort_pts mset_sort_pts)

lemma isSquare_perm:
  "mset [a, b, c, d] = mset [a', b', c', d'] \<Longrightarrow>
   isSquare a b c d eps = isSquare a' b' c' d' eps"
  using sort_pts_perm[of "[a, b, c, d]" "[a', b', c', d']"] unfolding isSquare_def
  by presburger

lemma isRectangle_perm:
  "mset [a, b, c, d] = mset [a', b', c', d'] \<Longrightarrow>
   isRectangle a b c d eps = isRectangle a' b' c' d' eps"
  using sort_pts_perm[of "[a, b, c, d]" "[a', b', c', d']"] unfolding isRectangle_def
  by presburger

lemmas geometry_defs =
  isSquare_def isRectangle_def isRightAngle_def dist2_def dot_def sub_def pt_def pt_less_def
  eps_default_def

section \<open>The square predicate on the two quadruples of the specification\<close>

lemma isSquare_two_by_two: "isSquare (pt 0 0) (pt 2 0) (pt 2 2) (pt 0 2) eps_default"
  by (simp add: geometry_defs)

lemma isSquare_three_by_two: "isSquare (pt 0 0) (pt 3 0) (pt 3 2) (pt 0 2) eps_default"
  by (simp add: geometry_defs)

text \<open>
  The comparison of the sides in \<open>isSquare\<close> rejects no axis-aligned rectangle: at each
  of the two extreme corners the nearer neighbour is at the squared length of the shorter
  side, so \<open>s1\<close> and \<open>s2\<close> are equal.
\<close>

lemma isSquare_axis_aligned_rectangle:
  assumes "0 < w" and "0 < h" and "0 < eps" and "eps < w * w" and "eps < h * h"
  shows "isSquare (pt 0 0) (pt w 0) (pt w h) (pt 0 h) eps"
proof -
  have s: "sort_pts [pt 0 0, pt w 0, pt w h, pt 0 h] = [pt 0 0, pt 0 h, pt w 0, pt w h]"
    using assms(1,2) by (simp add: pt_less_def)
  have s': "sort_pts [pt 0 0, pt 0 h, pt w 0, pt w h] = [pt 0 0, pt 0 h, pt w 0, pt w h]"
    using assms(1,2) by (simp add: pt_less_def)
  have r: "isRectangle (pt 0 0) (pt 0 h) (pt w 0) (pt w h) eps"
    unfolding isRectangle_def s'
    using assms(3) by (simp add: isRightAngle_def dist2_def dot_def sub_def)
  show ?thesis
    unfolding isSquare_def s
    using assms(3-5) r by (simp add: dist2_def sub_def)
qed

text \<open>
  C1. With the default tolerance \<open>isSquare\<close> is to accept the corners
  (0,0),(2,0),(2,2),(0,2) and to reject the corners (0,0),(3,0),(3,2),(0,2), in every
  argument order. The code accepts the square in every order, and it accepts the
  3-by-2 rectangle in every order as well.
\<close>

theorem isSquare_accepts_rectangle_in_every_order:
  "(mset [a, b, c, d] = mset [pt 0 0, pt 2 0, pt 2 2, pt 0 2] \<longrightarrow>
      isSquare a b c d eps_default) \<and>
   (mset [a, b, c, d] = mset [pt 0 0, pt 3 0, pt 3 2, pt 0 2] \<longrightarrow>
      isSquare a b c d eps_default)"
  using isSquare_perm[of a b c d _ _ _ _ eps_default] isSquare_two_by_two
    isSquare_three_by_two
  by blast

theorem isSquare_accepts_rectangle_witness:
  "isSquare (pt 0 0) (pt 2 0) (pt 2 2) (pt 0 2) eps_default \<and>
   isSquare (pt 0 2) (pt 3 2) (pt 0 0) (pt 3 0) eps_default"
  using isSquare_accepts_rectangle_in_every_order[of "pt 0 0" "pt 2 0" "pt 2 2" "pt 0 2"]
    isSquare_accepts_rectangle_in_every_order[of "pt 0 2" "pt 3 2" "pt 0 0" "pt 3 0"]
  by (simp add: pt_def)

section \<open>Messages\<close>

lemmas qarg_eval = qarg_def escape_at_def is_digit_def digit_value_def

lemma is_digit_digit_char: "d < 10 \<Longrightarrow> is_digit (digit_char d)"
proof -
  assume "d < 10"
  then have "d \<in> {0, 1, 2, 3, 4, 5, 6, 7, 8, 9}" by auto
  then show ?thesis by (auto simp: digit_char_def is_digit_def)
qed

lemma show_nat_digits: "\<forall>c \<in> set (show_nat n). is_digit c"
proof (induction n rule: show_nat.induct)
  case (1 n)
  show ?case
  proof (cases "n < 10")
    case True
    then show ?thesis by (subst show_nat.simps) (simp add: is_digit_digit_char)
  next
    case False
    have "n mod 10 < 10" by simp
    then have "is_digit (digit_char (n mod 10))" by (rule is_digit_digit_char)
    with False 1 show ?thesis by (subst show_nat.simps) auto
  qed
qed

lemma show_nat_digit: "n < 10 \<Longrightarrow> show_nat n = [digit_char n]"
  by (simp add: show_nat.simps)

lemma digit_not_percent: "is_digit c \<Longrightarrow> c \<noteq> CHR ''%''"
  by (auto simp: is_digit_def)

lemma min_escape_no_percent:
  "CHR ''%'' \<notin> set xs \<Longrightarrow> min_escape (xs @ ys) = min_escape ys"
  by (induction xs) auto

lemma replace_escapes_no_percent:
  "CHR ''%'' \<notin> set xs \<Longrightarrow> replace_escapes m a 0 (xs @ ys) = xs @ replace_escapes m a 0 ys"
  by (induction xs) auto

lemma show_nat_no_percent: "CHR ''%'' \<notin> set (show_nat n)"
  using show_nat_digits digit_not_percent by blast

lemma qarg_prefix: "CHR ''%'' \<notin> set xs \<Longrightarrow> qarg (xs @ ys) a = xs @ qarg ys a"
  by (simp add: qarg_def min_escape_no_percent replace_escapes_no_percent split: option.splits)

lemma line_prefix_no_percent: "CHR ''%'' \<notin> set (''\<newline>Line '' @ show_nat n)"
  using show_nat_no_percent by simp

lemma entry_parse_error:
  "qarg (qarg_int ''\<newline>Line %1 parse error: %2'' n) m =
   ''\<newline>Line '' @ show_nat n @ '' parse error: '' @ m"
proof -
  have "qarg ((''\<newline>Line '' @ show_nat n) @ '' parse error: %2'') m =
    (''\<newline>Line '' @ show_nat n) @ qarg '' parse error: %2'' m"
    using line_prefix_no_percent by (rule qarg_prefix)
  moreover have "qarg '' parse error: %2'' m = '' parse error: '' @ m"
    by (simp add: qarg_eval)
  moreover have "qarg_int ''\<newline>Line %1 parse error: %2'' n =
    (''\<newline>Line '' @ show_nat n) @ '' parse error: %2''"
    by (simp add: qarg_int_def qarg_eval)
  ultimately show ?thesis by simp
qed

lemma entry_failed:
  "qarg (qarg_int ''\<newline>Line %1 failed: %2'' n) m =
   ''\<newline>Line '' @ show_nat n @ '' failed: '' @ m"
proof -
  have "qarg ((''\<newline>Line '' @ show_nat n) @ '' failed: %2'') m =
    (''\<newline>Line '' @ show_nat n) @ qarg '' failed: %2'' m"
    using line_prefix_no_percent by (rule qarg_prefix)
  moreover have "qarg '' failed: %2'' m = '' failed: '' @ m"
    by (simp add: qarg_eval)
  moreover have "qarg_int ''\<newline>Line %1 failed: %2'' n =
    (''\<newline>Line '' @ show_nat n) @ '' failed: %2''"
    by (simp add: qarg_int_def qarg_eval)
  ultimately show ?thesis by simp
qed

lemma report_header:
  "qarg (qarg_int (qarg_int ''Script executed: %1 successes, %2 failures.%3'' s) f) m =
   ''Script executed: '' @ show_nat s @ '' successes, '' @ show_nat f @ '' failures.'' @ m"
proof -
  have 1: "qarg_int ''Script executed: %1 successes, %2 failures.%3'' s =
    (''Script executed: '' @ show_nat s) @ '' successes, %2 failures.%3''"
    by (simp add: qarg_int_def qarg_eval)
  have p1: "CHR ''%'' \<notin> set (''Script executed: '' @ show_nat s)"
    using show_nat_no_percent by simp
  have 2: "qarg_int ((''Script executed: '' @ show_nat s) @ '' successes, %2 failures.%3'') f =
    (''Script executed: '' @ show_nat s) @ qarg '' successes, %2 failures.%3'' (show_nat f)"
    unfolding qarg_int_def using p1 by (rule qarg_prefix)
  have 3: "qarg '' successes, %2 failures.%3'' (show_nat f) =
    '' successes, '' @ show_nat f @ '' failures.%3''"
    by (simp add: qarg_eval)
  have p2: "CHR ''%'' \<notin> set (''Script executed: '' @ show_nat s @ '' successes, '' @ show_nat f)"
    using show_nat_no_percent by simp
  have 4: "qarg ((''Script executed: '' @ show_nat s @ '' successes, '' @ show_nat f) @ '' failures.%3'') m =
    (''Script executed: '' @ show_nat s @ '' successes, '' @ show_nat f) @ qarg '' failures.%3'' m"
    using p2 by (rule qarg_prefix)
  have 5: "qarg '' failures.%3'' m = '' failures.'' @ m"
    by (simp add: qarg_eval)
  show ?thesis using 1 2 3 4 5 by simp
qed


section \<open>Evaluating the parser and the helpers\<close>

lemmas parse_eval = parse_def re_space_def startsWith_def parseCoords_def match_coords_def
  match_number_def toDouble_def digits_value_def is_digit_def digit_value_def
  parseFlagValue_def empty_Command_def

lemmas trimmed_eval = trimmed_def isSpace_def

lemmas example_cmd_defs = cmd_line_def cmd_triangle_def cmd_rectangle_flat_def
  cmd_rectangle_diagonal_def cmd_rectangle_corners_def cmd_rectangle_point_def
  cmd_square_diagonal_def cmd_square_vertices_def cmd_square_diamond_def
  cmd_square_duplicate_def cmd_connect_missing_def cmd_connect_def
  cmd_execute_comment_def cmd_execute_batch_def

text \<open>The example commands are what the parser returns on their lines.\<close>

lemma example_commands_parsed:
  "parse ''create_line -name l1 -coord_1 {0,0} -coord_2 {5,2}'' = Inr cmd_line"
  "parse ''create_triangle -name t1 -coord_1 {0,0} -coord_2 {3,0} -coord_3 {0,4}'' = Inr cmd_triangle"
  "parse ''create_rectangle -name r1 -coord_1 {0,0} -coord_2 {3,0}'' = Inr cmd_rectangle_flat"
  "parse ''create_rectangle -name rect1 -coord_1 {3,0} -coord_2 {0,4}'' = Inr cmd_rectangle_diagonal"
  "parse ''create_rectangle -name rect2 -coord_1 {3,4} -coord_2 {0,0} -coord_3 {0,4} -coord_4 {3,0}''
     = Inr cmd_rectangle_corners"
  "parse ''create_rectangle -name dot -coord_1 {1,1} -coord_2 {1,1} -coord_3 {1,1} -coord_4 {1,1}''
     = Inr cmd_rectangle_point"
  "parse ''create_square -name sq1 -coord_1 {0,0} -coord_2 {3,3}'' = Inr cmd_square_diagonal"
  "parse ''create_square -name sq2 -coord_1 {0,0} -coord_2 {3,3} -coord_3 {3,0} -coord_4 {0,3}''
     = Inr cmd_square_vertices"
  "parse ''create_square -name s -coord_1 {1,0} -coord_2 {2,1} -coord_3 {1,2} -coord_4 {0,1}''
     = Inr cmd_square_diamond"
  "parse ''create_square -name l1 -coord_1 {0,0} -coord_2 {3,3}'' = Inr cmd_square_duplicate"
  "parse ''connect -object_name_1 t1 -object_name_2 r_missing'' = Inr cmd_connect_missing"
  "parse ''connect -object_name_1 l1 -object_name_2 t1'' = Inr cmd_connect"
  "parse ''execute_file -file_path comment.txt'' = Inr cmd_execute_comment"
  "parse ''execute_file -file_path batch.txt'' = Inr cmd_execute_batch"
  by (simp_all add: parse_eval example_cmd_defs)

lemma isRectangle_same: "isRectangle p p p p eps_default"
  by (simp add: isRectangle_def isRightAngle_def dist2_def dot_def sub_def pt_less_def
      eps_default_def)

lemma foldl_min_Min: "foldl (\<lambda>m q. min m (f q)) (a::real) ps = Min (insert a (f ` set ps))"
proof (induction ps arbitrary: a)
  case Nil
  then show ?case by simp
next
  case (Cons q ps)
  have "Min (insert (min a (f q)) (f ` set ps)) = Min (insert a (insert (f q) (f ` set ps)))"
    by (cases "set ps = {}") (simp_all add: min.assoc)
  then show ?case using Cons by simp
qed

lemma foldl_max_Max: "foldl (\<lambda>m q. max m (f q)) (a::real) ps = Max (insert a (f ` set ps))"
proof (induction ps arbitrary: a)
  case Nil
  then show ?case by simp
next
  case (Cons q ps)
  have "Max (insert (max a (f q)) (f ` set ps)) = Max (insert a (insert (f q) (f ` set ps)))"
    by (cases "set ps = {}") (simp_all add: max.assoc)
  then show ?case using Cons by simp
qed

lemma RectangleShape_points_box:
  "RectangleShape_points nm (p # ps) = Some (RectangleShape nm (p # ps) (bounding_box (p # ps)))"
  by (simp add: RectangleShape_points_def bounding_box_def foldl_min_Min foldl_max_Max
      del: foldl_Cons)

lemma msg_rectangle_corners:
  "qarg ''Rectangle '%1' created from four corners.'' nm =
   ''Rectangle '' @ [CHR 0x27] @ nm @ [CHR 0x27] @ '' created from four corners.''"
  by (simp add: qarg_eval)

lemma requireName_Inr:
  "args cmd ''name'' = Some v \<Longrightarrow> trimmed v \<noteq> [] \<Longrightarrow> requireName cmd = Inr (trimmed v)"
  by (simp add: requireName_def)

lemma validateUniqueName_Inr:
  "m_repo st nm = None \<Longrightarrow> validateUniqueName (m_repo st) nm = Inr ()"
  by (simp add: validateUniqueName_def repo_contains_def)

lemma msg_duplicate:
  "qarg ''An object named '%1' already exists. Choose a unique name.'' nm =
   ''An object named '' @ [CHR 0x27] @ nm @ [CHR 0x27] @
   '' already exists. Choose a unique name.''"
  by (simp add: qarg_eval)

lemma msg_rectangle_diagonal:
  "qarg ''Rectangle '%1' created from diagonal points.'' nm =
   ''Rectangle '' @ [CHR 0x27] @ nm @ [CHR 0x27] @ '' created from diagonal points.''"
  by (simp add: qarg_eval)

lemma msg_square_vertices:
  "qarg ''Square '%1' created from four vertices.'' nm =
   ''Square '' @ [CHR 0x27] @ nm @ [CHR 0x27] @ '' created from four vertices.''"
  by (simp add: qarg_eval)

lemma validateUniqueName_Inl:
  "m_repo st nm \<noteq> None \<Longrightarrow>
   validateUniqueName (m_repo st) nm =
     Inl (''An object named '' @ [CHR 0x27] @ nm @ [CHR 0x27] @
          '' already exists. Choose a unique name.'')"
  by (simp add: validateUniqueName_def repo_contains_def msg_duplicate)

lemma requireName_Inr_iff:
  "requireName cmd = Inr nm \<longleftrightarrow>
   (\<exists>v. args cmd ''name'' = Some v \<and> trimmed v = nm \<and> nm \<noteq> [])"
  by (auto simp: requireName_def Let_def split: option.splits if_splits)

lemma handleCreateLine_success:
  assumes "handleCreateLine e cmd st = (True, msg, st')"
  shows "\<exists>nm p1 p2. requireName cmd = Inr nm \<and> m_repo st nm = None \<and>
           coords cmd ''coord_1'' = Some p1 \<and> coords cmd ''coord_2'' = Some p2 \<and>
           st' = register_shape st nm (LineShape nm p1 p2)"
  using assms
  by (auto simp: handleCreateLine_def validateUniqueName_def repo_contains_def requireCoord_def
      split: sum.splits option.splits if_splits)

lemma handleCreateTriangle_success:
  assumes "handleCreateTriangle cmd st = (True, msg, st')"
  shows "\<exists>nm p1 p2 p3. requireName cmd = Inr nm \<and> m_repo st nm = None \<and>
           coords cmd ''coord_1'' = Some p1 \<and> coords cmd ''coord_2'' = Some p2 \<and>
           coords cmd ''coord_3'' = Some p3 \<and> \<not> areCollinear p1 p2 p3 eps_default \<and>
           st' = register_shape st nm (TriangleShape nm p1 p2 p3)"
  using assms
  by (auto simp: handleCreateTriangle_def validateUniqueName_def repo_contains_def
      requireCoord_def split: sum.splits option.splits if_splits)

text \<open>Trimming a trimmed string changes nothing.\<close>

lemma last_dropWhile_ne: "dropWhile P xs \<noteq> [] \<Longrightarrow> last (dropWhile P xs) = last xs"
  by (metis last_appendR takeWhile_dropWhile_id)

lemma dropWhile_fix: "xs = [] \<or> \<not> P (hd xs) \<Longrightarrow> dropWhile P xs = xs"
  by (cases xs) auto

lemma dropWhile_trimmed: "dropWhile isSpace (trimmed v) = trimmed v"
proof (cases "trimmed v = []")
  case True
  then show ?thesis by simp
next
  case False
  define a where "a = dropWhile isSpace v"
  define b where "b = dropWhile isSpace (rev a)"
  have t: "trimmed v = rev b" by (simp add: trimmed_def a_def b_def)
  with False have bne: "b \<noteq> []" by simp
  then have ane: "a \<noteq> []" by (auto simp: b_def)
  have "hd (rev b) = last b" using bne by (simp add: hd_rev)
  also have "\<dots> = last (rev a)" using bne unfolding b_def by (rule last_dropWhile_ne)
  also have "\<dots> = hd a" using ane by (simp add: last_rev)
  finally have "hd (rev b) = hd a" .
  moreover have "\<not> isSpace (hd a)" using ane unfolding a_def by (rule hd_dropWhile)
  ultimately show ?thesis using t dropWhile_fix[of "rev b" isSpace] by simp
qed

lemma trimmed_idem: "trimmed (trimmed v) = trimmed v"
proof -
  have "trimmed (trimmed v) = rev (dropWhile isSpace (rev (trimmed v)))"
    by (simp add: dropWhile_trimmed trimmed_def[of "trimmed v"])
  also have "\<dots> = rev (dropWhile isSpace (dropWhile isSpace (rev (dropWhile isSpace v))))"
    by (simp add: trimmed_def)
  also have "\<dots> = trimmed v"
    by (simp add: trimmed_def)
  finally show ?thesis .
qed

section \<open>Rectangles from four corners: the degenerate case\<close>

text \<open>
  C9. For every point \<open>p\<close> and the default tolerance, \<open>isRectangle(p, p, p, p)\<close> is true;
  so a \<open>create_rectangle\<close> command that gives the same point for all of \<open>coord_1\<close> to
  \<open>coord_4\<close>, with a name that is not empty and not yet in the repository, succeeds and
  registers a rectangle of area zero.
\<close>

theorem degenerate_rectangle_accepted:
  "isRectangle p p p p eps_default \<and>
   (name cmd = ''create_rectangle'' \<longrightarrow> args cmd ''name'' = Some v \<longrightarrow> trimmed v \<noteq> [] \<longrightarrow>
    m_repo st (trimmed v) = None \<longrightarrow>
    coords cmd ''coord_1'' = Some p \<longrightarrow> coords cmd ''coord_2'' = Some p \<longrightarrow>
    coords cmd ''coord_3'' = Some p \<longrightarrow> coords cmd ''coord_4'' = Some p \<longrightarrow>
    execute e (Suc n) cmd m st =
      Some (True,
            ''Rectangle '' @ [CHR 0x27] @ trimmed v @ [CHR 0x27] @ '' created from four corners.'',
            register_shape st (trimmed v) (RectangleShape (trimmed v) [p, p, p, p] [p, p, p, p])))"
proof -
  have box: "bounding_box [p, p, p, p] = [p, p, p, p]"
    by (simp add: bounding_box_def)
  show ?thesis
    by (auto simp: isRectangle_same handleCreateRectangle_def requireName_Inr
        validateUniqueName_Inr hasFour_def coord_value_def RectangleShape_points_box box
        msg_rectangle_corners)
qed

theorem degenerate_rectangle_witness:
  "isRectangle (pt 1 1) (pt 1 1) (pt 1 1) (pt 1 1) eps_default \<and>
   execute example_env 1 cmd_rectangle_point [] empty_dispatcher =
     Some (True, ''Rectangle 'dot' created from four corners.'',
           \<lparr>m_scene = [PolygonItem (map dpt [pt 1 1, pt 1 1, pt 1 1, pt 1 1])],
            m_repo = [''dot'' \<mapsto> RectangleShape ''dot'' [pt 1 1, pt 1 1, pt 1 1, pt 1 1]
                                  [pt 1 1, pt 1 1, pt 1 1, pt 1 1]]\<rparr>)"
  using degenerate_rectangle_accepted[of "pt 1 1" cmd_rectangle_point "''dot''"
      empty_dispatcher example_env 0 "[]"]
  by (simp add: cmd_rectangle_point_def empty_dispatcher_def trimmed_eval register_shape_def
      repo_add_def)

section \<open>Unique names\<close>

text \<open>
  C5. In every state of the repository that holds the name \<open>A\<close>, a \<open>create_line\<close>,
  \<open>create_triangle\<close>, \<open>create_rectangle\<close> or \<open>create_square\<close> command with \<open>-name A\<close>
  fails with the duplicate-name message and leaves the dispatcher's state, the repository
  included, as it was. The name is what the dispatcher reads from the flag: its value
  with the white space trimmed, which is not empty (an empty name is refused before the
  repository is looked at, and is never stored).
\<close>

theorem duplicate_name_rejected:
  assumes "name cmd \<in> {''create_line'', ''create_triangle'', ''create_rectangle'', ''create_square''}"
    and "args cmd ''name'' = Some v" and "trimmed v \<noteq> []"
    and "m_repo st (trimmed v) \<noteq> None"
  shows "execute e (Suc n) cmd m st =
     Some (False,
           ''An object named '' @ [CHR 0x27] @ trimmed v @ [CHR 0x27] @
           '' already exists. Choose a unique name.'',
           st)"
proof -
  note rn = requireName_Inr[OF assms(2,3)]
  note vu = validateUniqueName_Inl[OF assms(4)]
  have l: "handleCreateLine e cmd st = (False, ''An object named '' @ [CHR 0x27] @ trimmed v @ [CHR 0x27] @
           '' already exists. Choose a unique name.'', st)"
    by (simp add: handleCreateLine_def rn vu)
  have t: "handleCreateTriangle cmd st = (False, ''An object named '' @ [CHR 0x27] @ trimmed v @ [CHR 0x27] @
           '' already exists. Choose a unique name.'', st)"
    by (simp add: handleCreateTriangle_def rn vu)
  have r: "handleCreateRectangle cmd st = Some (False, ''An object named '' @ [CHR 0x27] @ trimmed v @ [CHR 0x27] @
           '' already exists. Choose a unique name.'', st)"
    by (simp add: handleCreateRectangle_def rn vu)
  have s: "handleCreateSquare cmd st = (False, ''An object named '' @ [CHR 0x27] @ trimmed v @ [CHR 0x27] @
           '' already exists. Choose a unique name.'', st)"
    by (simp add: handleCreateSquare_def rn vu)
  from assms(1) show ?thesis
    by (auto simp: l t r s)
qed

theorem duplicate_name_witness:
  "m_repo with_line ''l1'' \<noteq> None \<and>
   execute example_env 1 cmd_square_duplicate [] with_line =
     Some (False, ''An object named 'l1' already exists. Choose a unique name.'', with_line)"
  using duplicate_name_rejected[of cmd_square_duplicate "''l1''" with_line example_env 0 "[]"]
  by (simp add: cmd_square_duplicate_def with_line_def empty_dispatcher_def trimmed_eval
      register_shape_def repo_add_def)

text \<open>
  Every state that the dispatcher reaches from the empty one keeps its names in that
  form, so a name in the repository is the trimmed, non-empty value of some \<open>-name\<close>.
\<close>

lemma requireName_trimmed: "requireName cmd = Inr nm \<Longrightarrow> nm \<noteq> [] \<and> trimmed nm = nm"
  by (auto simp: requireName_Inr_iff trimmed_idem)

lemma register_shape_names_ok:
  "stored_names_ok st \<Longrightarrow> nm \<noteq> [] \<Longrightarrow> trimmed nm = nm \<Longrightarrow>
   stored_names_ok (register_shape st nm shape)"
  by (simp add: stored_names_ok_def register_shape_def repo_add_def)

lemma handleCreateLine_names_ok:
  "stored_names_ok st \<Longrightarrow> handleCreateLine e cmd st = (ok, msg, st') \<Longrightarrow> stored_names_ok st'"
  by (auto simp: handleCreateLine_def dest!: requireName_trimmed
      intro!: register_shape_names_ok split: sum.splits)

lemma handleCreateTriangle_names_ok:
  "stored_names_ok st \<Longrightarrow> handleCreateTriangle cmd st = (ok, msg, st') \<Longrightarrow> stored_names_ok st'"
  by (auto simp: handleCreateTriangle_def dest!: requireName_trimmed
      intro!: register_shape_names_ok split: sum.splits if_splits)

lemma handleCreateRectangle_names_ok:
  "stored_names_ok st \<Longrightarrow> handleCreateRectangle cmd st = Some (ok, msg, st') \<Longrightarrow>
   stored_names_ok st'"
  by (auto simp: handleCreateRectangle_def Let_def dest!: requireName_trimmed
      intro!: register_shape_names_ok split: sum.splits if_splits option.splits)

lemma handleCreateSquare_names_ok:
  "stored_names_ok st \<Longrightarrow> handleCreateSquare cmd st = (ok, msg, st') \<Longrightarrow> stored_names_ok st'"
  by (auto simp: handleCreateSquare_def Let_def dest!: requireName_trimmed
      intro!: register_shape_names_ok split: sum.splits if_splits)

lemma handleConnect_names_ok:
  "stored_names_ok st \<Longrightarrow> handleConnect e cmd st = (ok, msg, st') \<Longrightarrow> stored_names_ok st'"
proof -
  assume ok: "stored_names_ok st" and h: "handleConnect e cmd st = (ok, msg, st')"
  from h have "m_repo st' = m_repo st"
    by (auto simp: handleConnect_def split: option.splits)
  with ok show ?thesis by (simp add: stored_names_ok_def)
qed

lemma script_loop_names_ok:
  assumes "\<And>c m s ok msg s'. stored_names_ok s \<Longrightarrow> exec c m s = Some (ok, msg, s') \<Longrightarrow>
             stored_names_ok s'"
  shows "stored_names_ok st \<Longrightarrow> script_loop exec ls k sc fc msg st = Some (sc', fc', msg', st') \<Longrightarrow>
         stored_names_ok st'"
proof (induction ls arbitrary: k sc fc msg st)
  case Nil
  then show ?case by simp
next
  case (Cons l ls)
  show ?case
  proof (cases "trimmed l = []")
    case True
    with Cons show ?thesis by simp
  next
    case False
    show ?thesis
    proof (cases "parse (trimmed l)")
      case (Inl err)
      with False Cons show ?thesis by simp
    next
      case (Inr c)
      with False Cons.prems obtain ok execMsg st1 where
        x: "exec c [] st = Some (ok, execMsg, st1)"
        by (auto simp: Let_def split: option.splits)
      from assms[OF Cons.prems(1) x] have "stored_names_ok st1" .
      then show ?thesis
        using Cons.prems(2) Cons.IH False Inr x
        by (auto simp: Let_def split: if_splits)
    qed
  qed
qed

lemma execute_names_ok:
  "stored_names_ok st \<Longrightarrow> execute e n cmd m st = Some (ok, msg, st') \<Longrightarrow> stored_names_ok st'"
proof (induction n arbitrary: cmd m st ok msg st')
  case 0
  then show ?case by simp
next
  case (Suc n)
  show ?case
  proof (cases "name cmd = ''execute_file''")
    case True
    with Suc.prems(2) have h: "handleExecuteFile e (execute e n) cmd m st = Some (ok, msg, st')"
      by simp
    show ?thesis
    proof (cases "args cmd ''file_path''")
      case None
      with h Suc.prems(1) show ?thesis by (simp add: handleExecuteFile_def)
    next
      case (Some path)
      show ?thesis
      proof (cases "files e path")
        case None
        with h Some Suc.prems(1) show ?thesis by (simp add: handleExecuteFile_def)
      next
        case (Some ls)
        with h \<open>args cmd ''file_path'' = Some path\<close> obtain sc fc msg' where
          "script_loop (execute e n) ls 0 0 0 m st = Some (sc, fc, msg', st')"
          by (auto simp: handleExecuteFile_def split: option.splits)
        from script_loop_names_ok[of "execute e n", OF Suc.IH Suc.prems(1) this]
        show ?thesis by simp
      qed
    qed
  next
    case False
    with Suc.prems show ?thesis
      by (auto simp del: not_None_eq split: if_splits
          dest: handleCreateLine_names_ok handleCreateTriangle_names_ok
            handleCreateRectangle_names_ok handleCreateSquare_names_ok handleConnect_names_ok)
  qed
qed

lemma empty_dispatcher_names_ok: "stored_names_ok empty_dispatcher"
  by (simp add: stored_names_ok_def empty_dispatcher_def)

section \<open>Rectangles from a diagonal\<close>

text \<open>
  C6. \<open>create_rectangle\<close> with \<open>coord_1\<close> and \<open>coord_2\<close> but not all four coordinates,
  and a valid name that is not yet registered, fails exactly when the two points share
  their \<open>x\<close> or their \<open>y\<close> within the tolerance of \<open>qFuzzyCompare\<close> (equal coordinates
  always do); otherwise it succeeds and the rectangle's corners are the axis-aligned box
  of the two points: the least and the greatest of each coordinate.
\<close>

theorem rectangle_from_diagonal:
  assumes "name cmd = ''create_rectangle''"
    and "args cmd ''name'' = Some v" and "trimmed v \<noteq> []"
    and "m_repo st (trimmed v) = None"
    and "coords cmd ''coord_1'' = Some p1" and "coords cmd ''coord_2'' = Some p2"
    and "\<not> hasFour cmd"
  shows "execute e (Suc n) cmd m st =
     (if qFuzzyCompare (xp p1) (xp p2) \<or> qFuzzyCompare (yp p1) (yp p2)
      then Some (False,
                 ''Diagonal points must differ in both x and y for a valid rectangle.'', st)
      else (let box = [pt (min (xp p1) (xp p2)) (min (yp p1) (yp p2)),
                       pt (max (xp p1) (xp p2)) (min (yp p1) (yp p2)),
                       pt (max (xp p1) (xp p2)) (max (yp p1) (yp p2)),
                       pt (min (xp p1) (xp p2)) (max (yp p1) (yp p2))]
            in Some (True,
                     ''Rectangle '' @ [CHR 0x27] @ trimmed v @ [CHR 0x27] @
                     '' created from diagonal points.'',
                     register_shape st (trimmed v) (RectangleShape (trimmed v) box box)))) \<and>
     (xp p1 = xp p2 \<or> yp p1 = yp p2 \<longrightarrow>
        qFuzzyCompare (xp p1) (xp p2) \<or> qFuzzyCompare (yp p1) (yp p2))"
proof -
  have "xp p1 = xp p2 \<or> yp p1 = yp p2 \<longrightarrow>
        qFuzzyCompare (xp p1) (xp p2) \<or> qFuzzyCompare (yp p1) (yp p2)"
    by (auto simp: qFuzzyCompare_def)
  moreover have "handleCreateRectangle cmd st =
     (if qFuzzyCompare (xp p1) (xp p2) \<or> qFuzzyCompare (yp p1) (yp p2)
      then Some (False,
                 ''Diagonal points must differ in both x and y for a valid rectangle.'', st)
      else (let box = [pt (min (xp p1) (xp p2)) (min (yp p1) (yp p2)),
                       pt (max (xp p1) (xp p2)) (min (yp p1) (yp p2)),
                       pt (max (xp p1) (xp p2)) (max (yp p1) (yp p2)),
                       pt (min (xp p1) (xp p2)) (max (yp p1) (yp p2))]
            in Some (True,
                     ''Rectangle '' @ [CHR 0x27] @ trimmed v @ [CHR 0x27] @
                     '' created from diagonal points.'',
                     register_shape st (trimmed v) (RectangleShape (trimmed v) box box))))"
    using assms(5,6,7)
    by (simp add: handleCreateRectangle_def requireName_Inr[OF assms(2,3)]
        validateUniqueName_Inr[OF assms(4)] requireCoord_def RectangleShape_diagonal_def
        msg_rectangle_diagonal Let_def)
  ultimately show ?thesis using assms(1) by simp
qed

theorem rectangle_from_diagonal_witness:
  "execute example_env 1 cmd_rectangle_flat [] empty_dispatcher =
     Some (False, ''Diagonal points must differ in both x and y for a valid rectangle.'',
           empty_dispatcher) \<and>
   execute example_env 1 cmd_rectangle_diagonal [] empty_dispatcher =
     Some (True, ''Rectangle 'rect1' created from diagonal points.'',
           \<lparr>m_scene = [PolygonItem (map dpt [pt 0 0, pt 3 0, pt 3 4, pt 0 4])],
            m_repo = [''rect1'' \<mapsto> RectangleShape ''rect1'' [pt 0 0, pt 3 0, pt 3 4, pt 0 4]
                                    [pt 0 0, pt 3 0, pt 3 4, pt 0 4]]\<rparr>)"
  using rectangle_from_diagonal[of cmd_rectangle_flat "''r1''" empty_dispatcher "pt 0 0"
      "pt 3 0" example_env 0 "[]"]
    rectangle_from_diagonal[of cmd_rectangle_diagonal "''rect1''" empty_dispatcher "pt 3 0"
      "pt 0 4" example_env 0 "[]"]
  by (simp add: cmd_rectangle_flat_def cmd_rectangle_diagonal_def empty_dispatcher_def
      trimmed_eval hasFour_def qFuzzyCompare_def register_shape_def repo_add_def Let_def)

section \<open>Rectangles and squares from four corners\<close>

lemma diamond_is_square: "isSquare (pt 1 0) (pt 2 1) (pt 1 2) (pt 0 1) eps_default"
  by (simp add: geometry_defs)

text \<open>
  C3, as stated: for both \<open>create_rectangle\<close> and \<open>create_square\<close> with four
  coordinates, the polygon of the created shape is the bounding box of the four points.
  The square with the corners (1,0),(2,1),(1,2),(0,1) is accepted, and its polygon is
  these four corners, not the corners (0,0),(2,0),(2,2),(0,2) of their bounding box.
\<close>

theorem square_polygon_not_bounding_box:
  "execute example_env 1 cmd_square_diamond [] empty_dispatcher =
     Some (True, ''Square 's' created from four vertices.'',
           \<lparr>m_scene = [PolygonItem (map dpt [pt 1 0, pt 2 1, pt 1 2, pt 0 1])],
            m_repo = [''s'' \<mapsto> SquareShape ''s'' (map dpt [pt 1 0, pt 2 1, pt 1 2, pt 0 1])
                                (map dpt [pt 1 0, pt 2 1, pt 1 2, pt 0 1])]\<rparr>) \<and>
   bounding_box [pt 1 0, pt 2 1, pt 1 2, pt 0 1] = [pt 0 0, pt 2 0, pt 2 2, pt 0 2] \<and>
   [pt 1 0, pt 2 1, pt 1 2, pt 0 1] \<noteq> bounding_box [pt 1 0, pt 2 1, pt 1 2, pt 0 1] \<and>
   map dpt [pt 1 0, pt 2 1, pt 1 2, pt 0 1] \<noteq>
     map dpt (bounding_box [pt 1 0, pt 2 1, pt 1 2, pt 0 1])"
proof -
  have t: "trimmed ''s'' = ''s''" by (simp add: trimmed_eval)
  have h: "handleCreateSquare cmd_square_diamond empty_dispatcher =
    (True, ''Square 's' created from four vertices.'',
     register_shape empty_dispatcher ''s''
       (SquareShape ''s'' (map dpt [pt 1 0, pt 2 1, pt 1 2, pt 0 1]) (map dpt [pt 1 0, pt 2 1, pt 1 2, pt 0 1])))"
    by (simp add: handleCreateSquare_def requireName_def validateUniqueName_def
        repo_contains_def hasFour_def coord_value_def cmd_square_diamond_def
        empty_dispatcher_def t diamond_is_square SquareShape_vertices_def msg_square_vertices
        Let_def)
  have e: "execute example_env 1 cmd_square_diamond [] empty_dispatcher =
     Some (True, ''Square 's' created from four vertices.'',
           \<lparr>m_scene = [PolygonItem (map dpt [pt 1 0, pt 2 1, pt 1 2, pt 0 1])],
            m_repo = [''s'' \<mapsto> SquareShape ''s'' (map dpt [pt 1 0, pt 2 1, pt 1 2, pt 0 1])
                                (map dpt [pt 1 0, pt 2 1, pt 1 2, pt 0 1])]\<rparr>)"
    using h
    by (simp add: cmd_square_diamond_def register_shape_def repo_add_def empty_dispatcher_def)
  have b: "bounding_box [pt 1 0, pt 2 1, pt 1 2, pt 0 1] = [pt 0 0, pt 2 0, pt 2 2, pt 0 2]"
    by (simp add: bounding_box_def)
  have "[pt 1 0, pt 2 1, pt 1 2, pt 0 1] \<noteq> [pt 0 0, pt 2 0, pt 2 2, pt 0 2]"
    by (simp add: pt_def)
  moreover have "map dpt [pt 1 0, pt 2 1, pt 1 2, pt 0 1] \<noteq>
      map dpt [pt 0 0, pt 2 0, pt 2 2, pt 0 2]"
    by (simp add: dpt_pt)
  ultimately show ?thesis using e b by simp
qed

text \<open>
  C3, amended: with four coordinates, a valid name that is not yet registered, and the
  validation passed, \<open>create_rectangle\<close> stores the four points in the order given and
  draws the axis-aligned bounding box of the four points, whatever their order;
  \<open>create_square\<close> stores and draws the four points in the order given.
\<close>

theorem four_corner_polygons:
  assumes "args cmd ''name'' = Some v" and "trimmed v \<noteq> []"
    and "m_repo st (trimmed v) = None"
    and "coords cmd ''coord_1'' = Some p1" and "coords cmd ''coord_2'' = Some p2"
    and "coords cmd ''coord_3'' = Some p3" and "coords cmd ''coord_4'' = Some p4"
  shows "(name cmd = ''create_rectangle'' \<longrightarrow> isRectangle p1 p2 p3 p4 eps_default \<longrightarrow>
           execute e (Suc n) cmd m st =
             Some (True,
                   ''Rectangle '' @ [CHR 0x27] @ trimmed v @ [CHR 0x27] @
                   '' created from four corners.'',
                   register_shape st (trimmed v)
                     (RectangleShape (trimmed v) [p1, p2, p3, p4]
                        (bounding_box [p1, p2, p3, p4])))) \<and>
         (name cmd = ''create_square'' \<longrightarrow> isSquare p1 p2 p3 p4 eps_default \<longrightarrow>
           execute e (Suc n) cmd m st =
             Some (True,
                   ''Square '' @ [CHR 0x27] @ trimmed v @ [CHR 0x27] @
                   '' created from four vertices.'',
                   register_shape st (trimmed v)
                     (SquareShape (trimmed v) (map dpt [p1, p2, p3, p4]) (map dpt [p1, p2, p3, p4]))))"
proof -
  have four: "hasFour cmd"
    using assms(4-7) by (simp add: hasFour_def)
  have vals: "coord_value cmd ''coord_1'' = p1" "coord_value cmd ''coord_2'' = p2"
    "coord_value cmd ''coord_3'' = p3" "coord_value cmd ''coord_4'' = p4"
    using assms(4-7) by (simp_all add: coord_value_def)
  have r: "isRectangle p1 p2 p3 p4 eps_default \<Longrightarrow>
    handleCreateRectangle cmd st =
      Some (True,
            ''Rectangle '' @ [CHR 0x27] @ trimmed v @ [CHR 0x27] @
            '' created from four corners.'',
            register_shape st (trimmed v)
              (RectangleShape (trimmed v) [p1, p2, p3, p4] (bounding_box [p1, p2, p3, p4])))"
    by (simp add: handleCreateRectangle_def requireName_Inr[OF assms(1,2)]
        validateUniqueName_Inr[OF assms(3)] four vals RectangleShape_points_box
        msg_rectangle_corners del: foldl_Cons)
  have s: "isSquare p1 p2 p3 p4 eps_default \<Longrightarrow>
    handleCreateSquare cmd st =
      (True,
       ''Square '' @ [CHR 0x27] @ trimmed v @ [CHR 0x27] @ '' created from four vertices.'',
       register_shape st (trimmed v)
         (SquareShape (trimmed v) (map dpt [p1, p2, p3, p4]) (map dpt [p1, p2, p3, p4])))"
    by (simp add: handleCreateSquare_def requireName_Inr[OF assms(1,2)]
        validateUniqueName_Inr[OF assms(3)] four vals SquareShape_vertices_def
        msg_square_vertices)
  show ?thesis using r s by simp
qed

theorem four_corner_polygons_witness:
  "isRectangle (pt 3 4) (pt 0 0) (pt 0 4) (pt 3 0) eps_default \<and>
   execute example_env 1 cmd_rectangle_corners [] empty_dispatcher =
     Some (True, ''Rectangle 'rect2' created from four corners.'',
           \<lparr>m_scene = [PolygonItem (map dpt [pt 0 0, pt 3 0, pt 3 4, pt 0 4])],
            m_repo = [''rect2'' \<mapsto> RectangleShape ''rect2'' [pt 3 4, pt 0 0, pt 0 4, pt 3 0]
                                    [pt 0 0, pt 3 0, pt 3 4, pt 0 4]]\<rparr>) \<and>
   isSquare (pt 0 0) (pt 3 3) (pt 3 0) (pt 0 3) eps_default \<and>
   execute example_env 1 cmd_square_vertices [] empty_dispatcher =
     Some (True, ''Square 'sq2' created from four vertices.'',
           \<lparr>m_scene = [PolygonItem (map dpt [pt 0 0, pt 3 3, pt 3 0, pt 0 3])],
            m_repo = [''sq2'' \<mapsto> SquareShape ''sq2'' (map dpt [pt 0 0, pt 3 3, pt 3 0, pt 0 3])
                                  (map dpt [pt 0 0, pt 3 3, pt 3 0, pt 0 3])]\<rparr>)"
proof -
  have r: "isRectangle (pt 3 4) (pt 0 0) (pt 0 4) (pt 3 0) eps_default"
    by (simp add: geometry_defs)
  have s: "isSquare (pt 0 0) (pt 3 3) (pt 3 0) (pt 0 3) eps_default"
    by (simp add: geometry_defs)
  have b: "bounding_box [pt 3 4, pt 0 0, pt 0 4, pt 3 0] = [pt 0 0, pt 3 0, pt 3 4, pt 0 4]"
    by (simp add: bounding_box_def)
  show ?thesis
    using four_corner_polygons[of cmd_rectangle_corners "''rect2''" empty_dispatcher
        "pt 3 4" "pt 0 0" "pt 0 4" "pt 3 0" example_env 0 "[]"]
      four_corner_polygons[of cmd_square_vertices "''sq2''" empty_dispatcher
        "pt 0 0" "pt 3 3" "pt 3 0" "pt 0 3" example_env 0 "[]"]
      r s
    by (simp add: cmd_rectangle_corners_def cmd_square_vertices_def empty_dispatcher_def
        trimmed_eval b register_shape_def repo_add_def)
qed

section \<open>Centers\<close>

lemma center_line:
  "center e (LineShape nm p1 p2) = dpt (midpoint p1 p2) \<longleftrightarrow>
     in_range (xp p1 + xp p2) \<and> in_range (yp p1 + yp p2)"
  by (auto simp: dpt_def midpoint_def ddiv_round_double)

lemma center_triangle:
  "center e (TriangleShape nm p1 p2 p3) = dpt (centroid p1 p2 p3) \<longleftrightarrow>
     in_range (xp p1 + xp p2) \<and> in_range (xp p1 + xp p2 + xp p3) \<and>
     in_range (yp p1 + yp p2) \<and> in_range (yp p1 + yp p2 + yp p3)"
  by (auto simp: dpt_def centroid_def ddiv_dadd_round_double)


lemma execute_cmd_line:
  "execute example_env (Suc 0) cmd_line [] empty_dispatcher =
     Some (True, ''Line 'l1' created from (0,0) to (5,2).'', with_line)"
  by (simp add: handleCreateLine_def requireName_def validateUniqueName_def repo_contains_def
      requireCoord_def cmd_line_def empty_dispatcher_def with_line_def trimmed_eval
      example_env_def show_nat_digit digit_char_def qarg_eval register_shape_def repo_add_def Let_def)

lemma msg_triangle:
  "qarg ''Triangle '%1' created.'' nm = ''Triangle '' @ [CHR 0x27] @ nm @ [CHR 0x27] @ '' created.''"
  by (simp add: qarg_eval)

lemma execute_cmd_triangle:
  "execute example_env (Suc 0) cmd_triangle [] with_line =
     Some (True, ''Triangle 't1' created.'', with_line_triangle)"
  by (simp add: handleCreateTriangle_def requireName_def validateUniqueName_def
      repo_contains_def requireCoord_def cmd_triangle_def with_line_def empty_dispatcher_def
      with_line_triangle_def trimmed_eval msg_triangle areCollinear_def sub_def
      eps_default_def register_shape_def repo_add_def Let_def)

lemma requireName_cmd_line: "requireName cmd_line = Inr ''l1''"
  by (simp add: requireName_def cmd_line_def trimmed_eval)

lemma requireName_cmd_triangle: "requireName cmd_triangle = Inr ''t1''"
  by (simp add: requireName_def cmd_triangle_def trimmed_eval)


text \<open>
  The line from \<open>(1e308, 0)\<close> to \<open>(1e308, 0)\<close> is created; its midpoint is \<open>(1e308, 0)\<close>,
  and its center is \<open>(inf, 0)\<close>.
\<close>

lemma ten_to_308_overflow: "overflow_threshold \<le> ten_to_308 + ten_to_308"
  by (simp add: ten_to_308_def overflow_threshold_def)

lemma center_huge_line:
  "center e (LineShape nm (pt ten_to_308 0) (pt ten_to_308 0)) = dpoint PosInf (Finite 0)"
proof -
  have "round_double (ten_to_308 + ten_to_308) = PosInf"
    using ten_to_308_overflow by (simp only: round_double_def if_True)
  then show ?thesis by simp
qed

lemma execute_cmd_line_huge:
  "\<exists>msg. execute example_env (Suc 0) cmd_line_huge [] empty_dispatcher =
     Some (True, msg,
           register_shape empty_dispatcher ''big''
             (LineShape ''big'' (pt ten_to_308 0) (pt ten_to_308 0)))"
  by (simp add: handleCreateLine_def requireName_def validateUniqueName_def repo_contains_def
      requireCoord_def cmd_line_huge_def empty_dispatcher_def trimmed_eval Let_def)


section \<open>Connecting two shapes\<close>

text \<open>
  C8. \<open>connect\<close> never changes the repository. It fails when one of the flags
  \<open>object_name_1\<close>, \<open>object_name_2\<close> is missing or one of the two names is not in the
  repository, and then leaves the whole state as it was; it succeeds when both names
  are found; in every case the repository afterwards is the repository before.
\<close>

theorem connect_leaves_registry:
  assumes "name cmd = ''connect''"
  shows "\<exists>ok msg st'. execute e (Suc n) cmd m st = Some (ok, msg, st') \<and>
           m_repo st' = m_repo st \<and>
           (ok \<longleftrightarrow> (\<exists>n1 n2. args cmd ''object_name_1'' = Some n1 \<and>
                             args cmd ''object_name_2'' = Some n2 \<and>
                             m_repo st n1 \<noteq> None \<and> m_repo st n2 \<noteq> None)) \<and>
           (\<not> ok \<longrightarrow> st' = st)"
  using assms
  by (auto simp: handleConnect_def repo_get_def split: option.splits)

theorem connect_witness:
  "execute example_env 1 cmd_connect_missing [] with_line_triangle =
     Some (False, ''One or both objects not found.'', with_line_triangle) \<and>
   execute example_env 1 cmd_connect [] with_line_triangle =
     Some (True, ''Connected 'l1' and 't1' by their centers.'',
           with_line_triangle
             \<lparr>m_scene := m_scene with_line_triangle @
                 [DashedLineItem (dpt (pt (5 / 2) 1)) (dpt (pt 1 (4 / 3)))]\<rparr>)"
  using connect_leaves_registry[of cmd_connect_missing example_env 0 "[]" with_line_triangle]
    connect_leaves_registry[of cmd_connect example_env 0 "[]" with_line_triangle]
  by (simp add: cmd_connect_missing_def cmd_connect_def handleConnect_def repo_get_def
      with_line_triangle_def with_line_def empty_dispatcher_def register_shape_def
      repo_add_def dpt_pt round_double_small)

section \<open>Squares from a diagonal\<close>

lemma handleCreateSquare_diagonal_success:
  assumes "handleCreateSquare cmd st = (True, msg, st')" and "\<not> hasFour cmd"
  shows "\<exists>nm p1 p2. requireName cmd = Inr nm \<and>
           coords cmd ''coord_1'' = Some p1 \<and> coords cmd ''coord_2'' = Some p2 \<and>
           isValidSquareDiagonal p1 p2 eps_diagonal \<and>
           st' = register_shape st nm (SquareShape_diagonal nm (dpt p1) (dpt p2))"
  using assms
  by (auto simp: handleCreateSquare_def validateUniqueName_def repo_contains_def
      requireCoord_def split: sum.splits option.splits if_splits)

lemma msg_square_diagonal:
  "qarg ''Square '%1' created from diagonal points.'' nm =
   ''Square '' @ [CHR 0x27] @ nm @ [CHR 0x27] @ '' created from diagonal points.''"
  by (simp add: qarg_eval)

lemma dist2_swap: "dist2 d1 d2 = (xp d2 - xp d1) * (xp d2 - xp d1) + (yp d2 - yp d1) * (yp d2 - yp d1)"
  by (simp add: dist2_def sub_def algebra_simps)

lemma vector_length_diagonal:
  "vector_length (diagonal_vector (dpt d1) (dpt d2)) = PosInf \<or>
   vector_length (diagonal_vector (dpt d1) (dpt d2)) = Finite (sqrt (dist2 d1 d2))"
proof -
  define vx where "vx = xp d2 - xp d1"
  define vy where "vy = yp d2 - yp d1"
  have nn: "0 \<le> vx * vx" "0 \<le> vy * vy" "0 \<le> vx * vx + vy * vy"
    by simp_all
  have "\<not> vx * vx + vy * vy \<le> - overflow_threshold"
    using overflow_threshold_pos nn(3) by linarith
  then have s: "round_double (vx * vx + vy * vy) = PosInf \<or>
      round_double (vx * vx + vy * vy) = Finite (vx * vx + vy * vy)"
    by (auto simp: round_double_def)
  have nn3: "\<not> vx * vx + vy * vy < 0"
    using nn(3) by linarith
  have "vector_length (diagonal_vector (dpt d1) (dpt d2)) =
      dsqrt (dadd (dmul (round_double vx) (round_double vx)) (dmul (round_double vy) (round_double vy)))"
    by (simp add: vector_length_def diagonal_vector_def vx_def vy_def)
  also have "\<dots> = PosInf \<or> \<dots> = Finite (sqrt (vx * vx + vy * vy))"
    using s nn3 by (auto simp: dmul_round_double_self)
  finally show ?thesis
    by (simp add: dist2_swap vx_def vy_def)
qed

lemma valid_diagonal_length:
  assumes "isValidSquareDiagonal d1 d2 eps_diagonal"
  shows "\<not> deq (vector_length (diagonal_vector (dpt d1) (dpt d2))) (Finite 0)"
proof -
  from assms have "0 < dist2 d1 d2"
    by (simp add: isValidSquareDiagonal_def eps_diagonal_def)
  then have "sqrt (dist2 d1 d2) \<noteq> 0" by simp
  with vector_length_diagonal[of d1 d2] show ?thesis by auto
qed

text \<open>Equal endpoints: the guarded branch.\<close>

lemma SquareShape_diagonal_same:
  assumes "in_range (xp d + xp d)" "in_range (yp d + yp d)"
  shows "SquareShape_diagonal nm (dpt d) (dpt d) =
           SquareShape nm (map dpt [d, d, d, d]) (map dpt [d, d, d, d])"
proof -
  have x: "round_double (2 * xp d) = Finite (2 * xp d)" "round_double (xp d) = Finite (xp d)"
    using assms(1) by (simp_all add: round_double_in_range in_range_def)
  have y: "round_double (2 * yp d) = Finite (2 * yp d)" "round_double (yp d) = Finite (yp d)"
    using assms(2) by (simp_all add: round_double_in_range in_range_def)
  have v: "diagonal_vector (dpt d) (dpt d) = dpoint (Finite 0) (Finite 0)"
    by (simp add: diagonal_vector_def)
  have l: "vector_length (dpoint (Finite 0) (Finite 0)) = Finite 0"
    by (simp add: vector_length_def)
  show ?thesis
    unfolding SquareShape_diagonal_def Let_def v l
    by (simp add: x y dpt_def)
qed

lemma unguarded_division_same:
  "ddiv (dxp (diagonal_vector (dpt d) (dpt d))) (vector_length (diagonal_vector (dpt d) (dpt d))) = NaN"
  by (simp add: diagonal_vector_def vector_length_def)

text \<open>A diagonal whose squared length overflows.\<close>

lemma SquareShape_diagonal_overflow:
  assumes "0 < h" "in_range h" "overflow_threshold \<le> h * h"
  shows "SquareShape_diagonal nm (dpt (pt 0 0)) (dpt (pt h 0)) =
           SquareShape nm [dpoint NaN NaN, dpoint NaN NaN, dpoint NaN NaN, dpoint NaN NaN]
             [dpoint NaN NaN, dpoint NaN NaN, dpoint NaN NaN, dpoint NaN NaN]"
proof -
  have h: "round_double h = Finite h"
    using assms(2) by (rule round_double_in_range)
  have hh: "round_double (h * h) = PosInf"
    using assms(3) by (simp add: round_double_def)
  have v: "diagonal_vector (dpt (pt 0 0)) (dpt (pt h 0)) = dpoint (Finite h) (Finite 0)"
    by (simp add: diagonal_vector_def h)
  have l: "vector_length (dpoint (Finite h) (Finite 0)) = PosInf"
    by (simp add: vector_length_def hh)
  show ?thesis
    unfolding SquareShape_diagonal_def Let_def v l
    using assms(1) by simp
qed

text \<open>Bounded coordinates: no operation of the constructor overflows.\<close>

lemma SquareShape_diagonal_bounded:
  assumes v: "isValidSquareDiagonal d1 d2 eps_diagonal"
    and c: "1 \<le> c" "in_range (8 * c * c)"
    and b1: "coords_within c d1" and b2: "coords_within c d2"
  shows "SquareShape_diagonal nm (dpt d1) (dpt d2) =
           (let wx = - (yp d2 - yp d1) / (2 * sqrt 2);
                wy = (xp d2 - xp d1) / (2 * sqrt 2);
                corners = map dpt [pt (xp d2 + wx) (yp d2 + wy), pt (xp d1 + wx) (yp d1 + wy),
                                   pt (xp d1 - wx) (yp d1 - wy), pt (xp d2 - wx) (yp d2 - wy)]
            in SquareShape nm corners corners)"
proof -
  define B where "B = 8 * c * c"
  define vx where "vx = xp d2 - xp d1"
  define vy where "vy = yp d2 - yp d1"
  define L where "L = sqrt (vx * vx + vy * vy)"
  define wx where "wx = - vy / (2 * sqrt 2)"
  define wy where "wy = vx / (2 * sqrt 2)"
  have B: "0 \<le> B" "in_range B"
    using c by (simp_all add: B_def)
  have rd: "round_double r = Finite r" if "\<bar>r\<bar> \<le> B" for r
    using that B by (intro round_double_le[of r B]) simp_all
  define q where "q = c * c"
  have Bq: "B = 8 * q"
    by (simp add: B_def q_def)
  have cq: "c \<le> q"
    using c(1) by (simp add: q_def mult_left_le)
  have cB: "c \<le> B" "2 * c \<le> B" "3 * c \<le> B" "4 * c \<le> B" "1 \<le> B"
    using c(1) cq unfolding Bq by linarith+
  have x1: "\<bar>xp d1\<bar> \<le> c" and y1: "\<bar>yp d1\<bar> \<le> c"
    using b1 by (simp_all add: coords_within_def)
  have x2: "\<bar>xp d2\<bar> \<le> c" and y2: "\<bar>yp d2\<bar> \<le> c"
    using b2 by (simp_all add: coords_within_def)
  have avx: "\<bar>vx\<bar> \<le> 2 * c" and avy: "\<bar>vy\<bar> \<le> 2 * c"
    using x1 x2 y1 y2 by (simp_all add: vx_def vy_def)
  have sq: "vx * vx \<le> 4 * q" "vy * vy \<le> 4 * q"
    using mult_mono[OF avx avx] mult_mono[OF avy avy] c(1) by (simp_all add: q_def)
  have "dist2 d1 d2 = vx * vx + vy * vy"
    by (simp add: dist2_swap vx_def vy_def)
  with v have pos: "0 < vx * vx + vy * vy"
    by (simp add: isValidSquareDiagonal_def eps_diagonal_def)
  then have L_pos: "0 < L" by (simp add: L_def)
  have vxL: "\<bar>vx\<bar> \<le> L" and vyL: "\<bar>vy\<bar> \<le> L"
    unfolding L_def by (rule real_le_rsqrt, simp add: power2_eq_square)+
  have "L \<le> \<bar>vx\<bar> + \<bar>vy\<bar>"
    unfolding L_def using sqrt_sum_squares_le_sum_abs[of vx vy] by (simp add: power2_eq_square)
  with avx avy have L4: "L \<le> 4 * c" by linarith
  have s2: "1 \<le> sqrt 2"
    by simp
  have r_vx: "round_double vx = Finite vx" and r_vy: "round_double vy = Finite vy"
    using avx avy cB by (auto intro!: rd)
  have e_v: "diagonal_vector (dpt d1) (dpt d2) = dpoint (Finite vx) (Finite vy)"
    using r_vx r_vy by (simp add: diagonal_vector_def vx_def vy_def)
  have r_sq: "round_double (vx * vx) = Finite (vx * vx)"
    "round_double (vy * vy) = Finite (vy * vy)"
    "round_double (vx * vx + vy * vy) = Finite (vx * vx + vy * vy)"
  proof -
    have "vx * vx \<le> B" "vy * vy \<le> B" "vx * vx + vy * vy \<le> B"
      using sq zero_le_square[of c] unfolding Bq q_def by linarith+
    then have "\<bar>vx * vx\<bar> \<le> B" "\<bar>vy * vy\<bar> \<le> B" "\<bar>vx * vx + vy * vy\<bar> \<le> B"
      by (simp_all add: abs_mult_self_eq)
    then show "round_double (vx * vx) = Finite (vx * vx)"
      "round_double (vy * vy) = Finite (vy * vy)"
      "round_double (vx * vx + vy * vy) = Finite (vx * vx + vy * vy)"
      by (simp_all add: rd)
  qed
  have e_len: "vector_length (dpoint (Finite vx) (Finite vy)) = Finite L"
    using pos by (simp add: vector_length_def r_sq L_def)
  define H where "H = L / 2"
  define S where "S = H / sqrt 2"
  define ux where "ux = vx / L"
  define uy where "uy = vy / L"
  define Mx where "Mx = (xp d1 + xp d2) / 2"
  define My where "My = (yp d1 + yp d2) / 2"
  define hx where "hx = vx / 2"
  define hy where "hy = vy / 2"
  have L0: "L \<noteq> 0" using L_pos by simp
  have r_half: "round_double (L / 2) = Finite H"
    unfolding H_def using L_pos L4 cB by (auto intro!: rd)
  have e_half: "ddiv (Finite L) (Finite 2) = Finite H"
    by (simp add: r_half)
  have aux: "\<bar>vx / L\<bar> \<le> 1" "\<bar>vy / L\<bar> \<le> 1"
    using vxL vyL L_pos by simp_all
  have r_u: "round_double (vx / L) = Finite ux" "round_double (vy / L) = Finite uy"
    unfolding ux_def uy_def using aux cB(5) by (auto intro!: rd)
  have e_u: "ddiv (Finite vx) (Finite L) = Finite ux" "ddiv (Finite vy) (Finite L) = Finite uy"
    using L0 by (simp_all add: r_u)
  have sh: "0 \<le> S" "S \<le> 2 * c"
  proof -
    show "0 \<le> S" using L_pos by (simp add: S_def H_def)
    have "L / 2 / sqrt 2 \<le> L / 2 / 1"
      using L_pos s2 by (intro divide_left_mono) simp_all
    with L4 show "S \<le> 2 * c" by (simp add: S_def H_def)
  qed
  have r_side: "round_double (H / sqrt 2) = Finite S"
    unfolding S_def[symmetric] using sh cB by (auto intro!: rd)
  have e_side: "ddiv (Finite H) (dsqrt (Finite 2)) = Finite S"
    by (simp add: r_side)
  have p_x: "- (uy * S) = wx" and p_y: "ux * S = wy"
    using L_pos by (simp_all add: wx_def wy_def ux_def uy_def S_def H_def field_simps)
  have awx: "\<bar>wx\<bar> \<le> 2 * c" and awy: "\<bar>wy\<bar> \<le> 2 * c"
  proof -
    have "\<bar>wx\<bar> = \<bar>vy\<bar> / (2 * sqrt 2)" "\<bar>wy\<bar> = \<bar>vx\<bar> / (2 * sqrt 2)"
      by (simp_all add: wx_def wy_def)
    moreover have s22: "1 \<le> 2 * sqrt 2"
      using s2 by linarith
    moreover have "\<bar>vy\<bar> / (2 * sqrt 2) \<le> \<bar>vy\<bar> / 1"
      using s22 by (intro divide_left_mono) simp_all
    moreover have "\<bar>vx\<bar> / (2 * sqrt 2) \<le> \<bar>vx\<bar> / 1"
      using s22 by (intro divide_left_mono) simp_all
    ultimately show "\<bar>wx\<bar> \<le> 2 * c" "\<bar>wy\<bar> \<le> 2 * c"
      using avx avy by simp_all
  qed
  have r_w: "round_double wx = Finite wx" "round_double wy = Finite wy"
    using awx awy cB by (auto intro!: rd)
  have e_w: "dmul (dneg (Finite uy)) (Finite S) = Finite wx" "dmul (Finite ux) (Finite S) = Finite wy"
    by (simp_all add: p_x p_y r_w)
  have r_m: "round_double (xp d1 + xp d2) = Finite (xp d1 + xp d2)"
    "round_double (yp d1 + yp d2) = Finite (yp d1 + yp d2)"
    "round_double ((xp d1 + xp d2) / 2) = Finite Mx"
    "round_double ((yp d1 + yp d2) / 2) = Finite My"
    unfolding Mx_def My_def using x1 x2 y1 y2 cB by (auto intro!: rd)
  have e_m: "ddiv (dadd (Finite (xp d1)) (Finite (xp d2))) (Finite 2) = Finite Mx"
    "ddiv (dadd (Finite (yp d1)) (Finite (yp d2))) (Finite 2) = Finite My"
    by (simp_all add: r_m)
  have r_v2: "round_double (vx / 2) = Finite hx" "round_double (vy / 2) = Finite hy"
    unfolding hx_def hy_def using avx avy cB by (auto intro!: rd)
  have e_h: "ddiv (Finite vx) (Finite 2) = Finite hx" "ddiv (Finite vy) (Finite 2) = Finite hy"
    by (simp_all add: r_v2)
  have m_x: "Mx + hx = xp d2" "Mx - hx = xp d1"
    by (simp_all add: Mx_def hx_def vx_def field_simps)
  have m_y: "My + hy = yp d2" "My - hy = yp d1"
    by (simp_all add: My_def hy_def vy_def field_simps)
  have r_p: "round_double (xp d1) = Finite (xp d1)" "round_double (xp d2) = Finite (xp d2)"
    "round_double (yp d1) = Finite (yp d1)" "round_double (yp d2) = Finite (yp d2)"
    using x1 x2 y1 y2 cB by (auto intro!: rd)
  have r_c: "round_double (xp d2 + wx) = Finite (xp d2 + wx)"
    "round_double (yp d2 + wy) = Finite (yp d2 + wy)"
    "round_double (xp d1 + wx) = Finite (xp d1 + wx)"
    "round_double (yp d1 + wy) = Finite (yp d1 + wy)"
    "round_double (xp d1 - wx) = Finite (xp d1 - wx)"
    "round_double (yp d1 - wy) = Finite (yp d1 - wy)"
    "round_double (xp d2 - wx) = Finite (xp d2 - wx)"
    "round_double (yp d2 - wy) = Finite (yp d2 - wy)"
    using x1 x2 y1 y2 awx awy cB by (auto intro!: rd)
  have e_a: "dadd (dadd (Finite Mx) (Finite hx)) (Finite wx) = Finite (xp d2 + wx)"
    "dadd (dadd (Finite My) (Finite hy)) (Finite wy) = Finite (yp d2 + wy)"
    by (simp_all add: m_x m_y r_p r_c)
  have e_b: "dadd (dsub (Finite Mx) (Finite hx)) (Finite wx) = Finite (xp d1 + wx)"
    "dadd (dsub (Finite My) (Finite hy)) (Finite wy) = Finite (yp d1 + wy)"
    by (simp_all add: m_x m_y r_p r_c)
  have e_c: "dsub (dsub (Finite Mx) (Finite hx)) (Finite wx) = Finite (xp d1 - wx)"
    "dsub (dsub (Finite My) (Finite hy)) (Finite wy) = Finite (yp d1 - wy)"
    by (simp_all add: m_x m_y r_p r_c)
  have e_d: "dsub (dadd (Finite Mx) (Finite hx)) (Finite wx) = Finite (xp d2 - wx)"
    "dsub (dadd (Finite My) (Finite hy)) (Finite wy) = Finite (yp d2 - wy)"
    by (simp_all add: m_x m_y r_p r_c)
  have "SquareShape_diagonal nm (dpt d1) (dpt d2) =
          SquareShape nm
            (map dpt [pt (xp d2 + wx) (yp d2 + wy), pt (xp d1 + wx) (yp d1 + wy),
                      pt (xp d1 - wx) (yp d1 - wy), pt (xp d2 - wx) (yp d2 - wy)])
            (map dpt [pt (xp d2 + wx) (yp d2 + wy), pt (xp d1 + wx) (yp d1 + wy),
                      pt (xp d1 - wx) (yp d1 - wy), pt (xp d2 - wx) (yp d2 - wy)])"
    unfolding SquareShape_diagonal_def Let_def e_v e_len
    by (simp only: dxp_dpoint dyp_dpoint dxp_dpt dyp_dpt deq.simps L0 if_False
        e_half e_u e_side e_w e_m e_h e_a e_b e_c e_d dpt_pt list.map)
  then show ?thesis
    by (simp add: Let_def wx_def wy_def vx_def vy_def)
qed

lemma eps_diagonal_small: "eps_diagonal < overflow_threshold"
proof -
  have "eps_diagonal \<le> 10 ^ 307"
    unfolding eps_diagonal_def by (rule order_trans[of _ 1]) simp_all
  with overflow_threshold_gt show ?thesis by linarith
qed

lemma not_in_range_square:
  assumes "\<not> (in_range a \<and> in_range (a * a))"
  shows "overflow_threshold \<le> a * a"
proof (cases "in_range (a * a)")
  case True
  with assms have "overflow_threshold \<le> \<bar>a\<bar>"
    by (simp add: in_range_def)
  moreover have "1 \<le> overflow_threshold"
    using overflow_threshold_gt by (simp add: order_trans[of 1 "10 ^ 307"] less_imp_le)
  ultimately have "1 \<le> \<bar>a\<bar>" by linarith
  then have "\<bar>a\<bar> * 1 \<le> \<bar>a\<bar> * \<bar>a\<bar>"
    by (intro mult_left_mono) simp_all
  with \<open>overflow_threshold \<le> \<bar>a\<bar>\<close> show ?thesis
    by (simp add: abs_mult_self_eq)
next
  case False
  then show ?thesis
    using zero_le_square[of a] by (simp add: in_range_def)
qed

lemma isValidSquareDiagonal_double:
  "dless (Finite eps_diagonal) (dist2_double (dpt d1) (dpt d2)) \<longleftrightarrow>
   isValidSquareDiagonal d1 d2 eps_diagonal"
proof -
  define a where "a = xp d1 - xp d2"
  define b where "b = yp d1 - yp d2"
  have d: "dist2 d1 d2 = a * a + b * b"
    by (simp add: dist2_def sub_def a_def b_def)
  have e: "dist2_double (dpt d1) (dpt d2) =
      dadd (dmul (round_double a) (round_double a)) (dmul (round_double b) (round_double b))"
    by (simp add: dist2_double_def a_def b_def)
  have nn: "0 \<le> a * a" "0 \<le> b * b" by simp_all
  show ?thesis
  proof (cases "in_range a \<and> in_range (a * a) \<and> in_range b \<and> in_range (b * b)")
    case True
    then have s: "dist2_double (dpt d1) (dpt d2) = round_double (a * a + b * b)"
      by (simp add: e dmul_round_double_self)
    show ?thesis
    proof (cases "in_range (a * a + b * b)")
      case True
      then show ?thesis
        by (simp add: s round_double_in_range d isValidSquareDiagonal_def)
    next
      case False
      with nn have big: "overflow_threshold \<le> a * a + b * b"
        by (simp add: in_range_def)
      then have "round_double (a * a + b * b) = PosInf"
        by (simp add: round_double_def)
      with big eps_diagonal_small show ?thesis
        by (simp add: s d isValidSquareDiagonal_def)
    qed
  next
    case False
    then have inf: "dist2_double (dpt d1) (dpt d2) = PosInf"
      by (auto simp: e dmul_round_double_self)
    from False have "overflow_threshold \<le> a * a \<or> overflow_threshold \<le> b * b"
      using not_in_range_square[of a] not_in_range_square[of b] by blast
    with nn have "overflow_threshold \<le> a * a + b * b" by linarith
    with eps_diagonal_small show ?thesis
      by (simp add: inf d isValidSquareDiagonal_def)
  qed
qed

text \<open>A bound on the coordinates under which nothing overflows: \<open>1e153\<close>.\<close>

lemma coordinate_bound_example: "1 \<le> (10::real) ^ 153 \<and> in_range (8 * 10 ^ 153 * 10 ^ 153)"
  by (simp add: in_range_def overflow_threshold_def)

lemma handleCreateSquare_diagonal:
  assumes "\<not> hasFour cmd" "requireName cmd = Inr nm" "m_repo st nm = None"
    "coords cmd ''coord_1'' = Some p1" "coords cmd ''coord_2'' = Some p2"
  shows "handleCreateSquare cmd st =
           (if isValidSquareDiagonal p1 p2 eps_diagonal
            then (True,
                  ''Square '' @ [CHR 0x27] @ nm @ [CHR 0x27] @ '' created from diagonal points.'',
                  register_shape st nm (SquareShape_diagonal nm (dpt p1) (dpt p2)))
            else (False, ''Diagonal points do not define a valid square.'', st))"
  using assms
  by (simp add: handleCreateSquare_def validateUniqueName_Inr requireCoord_def
      msg_square_diagonal)


lemma valid_diagonal_example: "isValidSquareDiagonal (pt 0 0) (pt 3 3) eps_diagonal"
  by (simp add: isValidSquareDiagonal_def dist2_def sub_def eps_diagonal_def)

lemma cmd_square_diagonal_facts:
  "name cmd_square_diagonal = ''create_square''" "\<not> hasFour cmd_square_diagonal"
  "requireName cmd_square_diagonal = Inr ''sq1''"
  "coords cmd_square_diagonal ''coord_1'' = Some (pt 0 0)"
  "coords cmd_square_diagonal ''coord_2'' = Some (pt 3 3)"
  by (simp_all add: cmd_square_diagonal_def hasFour_def requireName_def trimmed_eval)


text \<open>
  The diagonal from \<open>(0, 0)\<close> to \<open>(1e200, 0)\<close> is valid; its squared length is infinite,
  the unit vector is zero, the half side is infinite, and the four corners of the
  created square are NaN.
\<close>

lemma ten_to_200_facts:
  "0 < ten_to_200" "in_range ten_to_200" "overflow_threshold \<le> ten_to_200 * ten_to_200"
  by (simp_all add: ten_to_200_def in_range_def overflow_threshold_def)

lemma valid_diagonal_huge: "isValidSquareDiagonal (pt 0 0) (pt ten_to_200 0) eps_diagonal"
proof -
  have "1 \<le> ten_to_200"
    by (simp add: ten_to_200_def)
  then have "1 * 1 \<le> ten_to_200 * ten_to_200"
    by (intro mult_mono) simp_all
  then show ?thesis
    by (simp add: isValidSquareDiagonal_def dist2_def sub_def eps_diagonal_def)
qed

lemma cmd_square_huge_facts:
  "name cmd_square_huge = ''create_square''" "\<not> hasFour cmd_square_huge"
  "requireName cmd_square_huge = Inr ''big''"
  "coords cmd_square_huge ''coord_1'' = Some (pt 0 0)"
  "coords cmd_square_huge ''coord_2'' = Some (pt ten_to_200 0)"
  by (simp_all add: cmd_square_huge_def hasFour_def requireName_def trimmed_eval)


section \<open>Running a script\<close>

lemma successes_simps [simp]:
  "successes [] = 0"
  "successes (Succeeded # os) = Suc (successes os)"
  "successes (Skipped # os) = successes os"
  "successes (ParseFailed m # os) = successes os"
  "successes (DispatchFailed m # os) = successes os"
  by (simp_all add: successes_def)

lemma failures_simps [simp]:
  "failures [] = 0"
  "failures (Succeeded # os) = failures os"
  "failures (Skipped # os) = failures os"
  "failures (ParseFailed m # os) = Suc (failures os)"
  "failures (DispatchFailed m # os) = Suc (failures os)"
  by (simp_all add: failures_def)

lemma script_loop_None:
  "line_outcomes exec ls st = None \<Longrightarrow> script_loop exec ls k sc fc msg st = None"
proof (induction ls arbitrary: k sc fc msg st)
  case Nil
  then show ?case by simp
next
  case (Cons l ls)
  then show ?case
    by (auto simp: Let_def split: if_splits sum.splits option.splits)
qed

lemma script_loop_outcomes:
  "line_outcomes exec ls st = Some (os, st') \<Longrightarrow>
   script_loop exec ls k sc fc msg st =
     Some (sc + successes os, fc + failures os, msg @ concat (diagnostics k os), st')"
proof (induction ls arbitrary: k sc fc msg st os)
  case Nil
  then show ?case by simp
next
  case (Cons l ls)
  show ?case
  proof (cases "trimmed l = []")
    case True
    with Cons.prems obtain os' where o: "line_outcomes exec ls st = Some (os', st')"
      and os: "os = Skipped # os'"
      by (auto split: option.splits)
    show ?thesis using Cons.IH[OF o, of "k + 1" sc fc msg] True os by simp
  next
    case False
    show ?thesis
    proof (cases "parse (trimmed l)")
      case (Inl err)
      with False Cons.prems obtain os' where o: "line_outcomes exec ls st = Some (os', st')"
        and os: "os = ParseFailed err # os'"
        by (auto split: option.splits)
      show ?thesis
        using Cons.IH[OF o, of "k + 1" sc "fc + 1"] False Inl os
        by (simp add: entry_parse_error)
    next
      case (Inr c)
      with False Cons.prems obtain ok execMsg st1 os' where
        x: "exec c [] st = Some (ok, execMsg, st1)"
        and o: "line_outcomes exec ls st1 = Some (os', st')"
        and os: "os = (if ok then Succeeded else DispatchFailed execMsg) # os'"
        by (auto split: option.splits)
      show ?thesis
      proof (cases ok)
        case True
        then show ?thesis
          using Cons.IH[OF o, of "k + 1" "sc + 1" fc msg] False Inr x os by simp
      next
        case no: False
        then show ?thesis
          using Cons.IH[OF o, of "k + 1" sc "fc + 1"] False Inr x os
          by (simp add: entry_failed)
      qed
    qed
  qed
qed

lemma line_outcomes_length:
  "line_outcomes exec ls st = Some (os, st') \<Longrightarrow> length os = length ls"
proof (induction ls arbitrary: st os)
  case Nil
  then show ?case by simp
next
  case (Cons l ls)
  then show ?case
    by (auto split: if_splits sum.splits option.splits)
qed

lemma line_outcomes_processed:
  "line_outcomes exec ls st = Some (os, st') \<Longrightarrow>
   successes os + failures os = length (filter (\<lambda>l. trimmed l \<noteq> []) ls)"
proof (induction ls arbitrary: st os)
  case Nil
  then show ?case by simp
next
  case (Cons l ls)
  then show ?case
    by (auto split: if_splits sum.splits option.splits)
qed

lemma failures_zero_iff: "failures os = 0 \<longleftrightarrow> (\<forall>x \<in> set os. \<not> is_failure x)"
  by (auto simp: failures_def filter_empty_conv)

lemma diagnostics_length: "length (diagnostics k os) = failures os"
  by (induction k os rule: diagnostics.induct) simp_all

lemma handleCreateRectangle_returns: "handleCreateRectangle cmd st \<noteq> None"
  by (simp add: handleCreateRectangle_def RectangleShape_points_def Let_def
      del: not_None_eq split: sum.splits)

lemma execute_returns:
  "name cmd \<noteq> ''execute_file'' \<Longrightarrow> execute e (Suc n) cmd m st \<noteq> None"
  using handleCreateRectangle_returns[of cmd st] by (simp del: not_None_eq)

lemma line_outcomes_no_dispatch:
  "\<forall>l \<in> set ls. trimmed l = [] \<or> (case parse (trimmed l) of Inl _ \<Rightarrow> True | Inr _ \<Rightarrow> False) \<Longrightarrow>
   line_outcomes exec ls st \<noteq> None"
proof (induction ls)
  case Nil
  then show ?case by simp
next
  case (Cons l ls)
  then show ?case
    by (auto split: sum.splits)
qed

lemma nested_script_returns:
  "nests_within e n ls \<Longrightarrow> line_outcomes (execute e n) ls st \<noteq> None"
proof (induction n arbitrary: ls st)
  case 0
  then show ?case using line_outcomes_no_dispatch[of ls "execute e 0" st] by simp
next
  case (Suc n)
  show ?case using Suc.prems
  proof (induction ls arbitrary: st)
    case Nil
    then show ?case by simp
  next
    case (Cons l ls)
    from Cons.prems have rest: "nests_within e (Suc n) ls" by simp
    note IHls = Cons.IH[OF rest]
    show ?case
    proof (cases "trimmed l = []")
      case True
      then show ?thesis using IHls[of st] by auto
    next
      case False
      show ?thesis
      proof (cases "parse (trimmed l)")
        case (Inl err)
        then show ?thesis using False IHls[of st] by auto
      next
        case (Inr c)
        have "execute e (Suc n) c [] st \<noteq> None"
        proof (cases "name c = ''execute_file''")
          case False
          then show ?thesis by (rule execute_returns)
        next
          case True
          show ?thesis
          proof (cases "args c ''file_path''")
            case None
            then show ?thesis using True by (simp add: handleExecuteFile_def)
          next
            case (Some path)
            show ?thesis
            proof (cases "files e path")
              case None
              then show ?thesis using True Some by (simp add: handleExecuteFile_def)
            next
              case (Some ls')
              have "opens e l = Some ls'"
                using Inr True \<open>args c ''file_path'' = Some path\<close> Some
                by (simp add: opens_def)
              with Cons.prems have "nests_within e n ls'" by simp
              from Suc.IH[OF this, of st] obtain os st1 where
                "line_outcomes (execute e n) ls' st = Some (os, st1)" by auto
              from script_loop_outcomes[OF this, of 0 0 0 "[]"]
              show ?thesis
                using True \<open>args c ''file_path'' = Some path\<close> Some
                by (simp add: handleExecuteFile_def)
            qed
          qed
        qed
        then obtain ok execMsg st1 where
          "execute e (Suc n) c [] st = Some (ok, execMsg, st1)"
          by (cases "execute e (Suc n) c [] st") auto
        then show ?thesis using False Inr IHls[of st1] by auto
      qed
    qed
  qed
qed


text \<open>A larger bound on the nesting does not change a result.\<close>

lemma script_loop_mono:
  assumes "\<And>c m s r. exec c m s = Some r \<Longrightarrow> exec' c m s = Some r"
  shows "script_loop exec ls k sc fc msg st = Some r \<Longrightarrow>
         script_loop exec' ls k sc fc msg st = Some r"
proof (induction ls arbitrary: k sc fc msg st)
  case Nil
  then show ?case by simp
next
  case (Cons l ls)
  show ?case
  proof (cases "trimmed l = []")
    case True
    with Cons show ?thesis by simp
  next
    case False
    show ?thesis
    proof (cases "parse (trimmed l)")
      case (Inl err)
      with False Cons show ?thesis by simp
    next
      case (Inr c)
      with False Cons.prems obtain ok execMsg st1 where
        x: "exec c [] st = Some (ok, execMsg, st1)"
        by (auto simp: Let_def split: option.splits)
      from assms[OF x] have x': "exec' c [] st = Some (ok, execMsg, st1)" .
      show ?thesis
        using Cons.prems Cons.IH False Inr x x'
        by (auto simp: Let_def split: if_splits)
    qed
  qed
qed

lemma execute_mono: "execute e n cmd m st = Some r \<Longrightarrow> execute e (Suc n) cmd m st = Some r"
proof (induction n arbitrary: cmd m st r)
  case 0
  then show ?case by simp
next
  case (Suc n)
  have loop: "\<And>ls k sc fc msg s q. script_loop (execute e n) ls k sc fc msg s = Some q \<Longrightarrow>
      script_loop (execute e (Suc n)) ls k sc fc msg s = Some q"
    using script_loop_mono[of "execute e n" "execute e (Suc n)"] Suc.IH by blast
  show ?case
  proof (cases "name cmd = ''execute_file''")
    case False
    with Suc.prems show ?thesis by (simp del: not_None_eq split: if_splits)
  next
    case True
    with Suc.prems have h: "handleExecuteFile e (execute e n) cmd m st = Some r" by simp
    have "handleExecuteFile e (execute e (Suc n)) cmd m st = Some r"
      using h loop
      by (auto simp: handleExecuteFile_def split: option.splits)
    with True show ?thesis by simp
  qed
qed

text \<open>
  C4. For a script file that opens (and whose nesting of scripts is bounded, so that the
  call returns), \<open>execute_file\<close> returns false if and only if at least one line failed to
  parse or to dispatch, and true if and only if none did, a script without processed
  lines included. The message gives the numbers of successes and failures, followed (after
  whatever message the caller passed in, which is empty at every call of the program) by
  one diagnostic entry for each failed line. A failed line never stops the run: every
  line of the file has its outcome, and every line that is not blank counts as one
  success or one failure.
\<close>

theorem execute_file_report:
  assumes "name cmd = ''execute_file''" and "args cmd ''file_path'' = Some path"
    and "files e path = Some ls" and "nests_within e n ls"
  shows "\<exists>os st'. line_outcomes (execute e n) ls st = Some (os, st') \<and>
           execute e (Suc n) cmd m st =
             Some (failures os = 0,
                   ''Script executed: '' @ show_nat (successes os) @ '' successes, '' @
                   show_nat (failures os) @ '' failures.'' @ m @ concat (diagnostics 0 os),
                   st') \<and>
           (failures os = 0 \<longleftrightarrow> (\<forall>x \<in> set os. \<not> is_failure x)) \<and>
           length (diagnostics 0 os) = failures os \<and>
           length os = length ls \<and>
           successes os + failures os = length (filter (\<lambda>l. trimmed l \<noteq> []) ls)"
proof -
  from nested_script_returns[OF assms(4), of st] obtain os st' where
    o: "line_outcomes (execute e n) ls st = Some (os, st')" by auto
  have "execute e (Suc n) cmd m st =
             Some (failures os = 0,
                   ''Script executed: '' @ show_nat (successes os) @ '' successes, '' @
                   show_nat (failures os) @ '' failures.'' @ m @ concat (diagnostics 0 os),
                   st')"
    using assms(1-3) script_loop_outcomes[OF o, of 0 0 0 m]
    by (simp add: handleExecuteFile_def report_header)
  with o show ?thesis
    using failures_zero_iff[of os] diagnostics_length[of 0 os] line_outcomes_length[OF o]
      line_outcomes_processed[OF o]
    by (intro exI[of _ os] exI[of _ st']) simp
qed

lemma msg_unknown:
  "qarg ''Unknown command '%1'.'' nm = ''Unknown command '' @ [CHR 0x27] @ nm @ [CHR 0x27] @ ''.''"
  by (simp add: qarg_eval)

lemma execute_unknown:
  "name cmd \<notin> {''create_line'', ''create_triangle'', ''create_rectangle'', ''create_square'',
     ''connect'', ''execute_file''} \<Longrightarrow>
   execute e (Suc n) cmd m st =
     Some (False, ''Unknown command '' @ [CHR 0x27] @ name cmd @ [CHR 0x27] @ ''.'', st)"
  by (simp add: msg_unknown)

lemma parse_bogus:
  "parse ''bogus'' = Inr \<lparr>name = ''bogus'', args = Map.empty, coords = Map.empty, errors = []\<rparr>"
  by (simp add: parse_eval)

lemma parse_duplicate_line:
  "parse ''create_line -name l1 -coord_1 {0,0} -coord_2 {1,1}'' =
     Inr \<lparr>name = ''create_line'', args = [''name'' \<mapsto> ''l1''],
          coords = [''coord_1'' \<mapsto> pt 0 0, ''coord_2'' \<mapsto> pt 1 1], errors = []\<rparr>"
  by (simp add: parse_eval)

lemma execute_duplicate_line:
  "execute example_env (Suc 0)
     \<lparr>name = ''create_line'', args = [''name'' \<mapsto> ''l1''],
      coords = [''coord_1'' \<mapsto> pt 0 0, ''coord_2'' \<mapsto> pt 1 1], errors = []\<rparr> []
     with_line_triangle =
   Some (False, ''An object named 'l1' already exists. Choose a unique name.'',
         with_line_triangle)"
proof -
  have "m_repo with_line_triangle ''l1'' \<noteq> None"
    by (simp add: with_line_triangle_def with_line_def register_shape_def repo_add_def)
  then show ?thesis
    by (simp add: handleCreateLine_def requireName_def trimmed_eval validateUniqueName_Inl)
qed

lemma execute_connect:
  "execute example_env (Suc 0) cmd_connect [] with_line_triangle =
     Some (True, ''Connected 'l1' and 't1' by their centers.'',
           with_line_triangle
             \<lparr>m_scene := m_scene with_line_triangle @
                 [DashedLineItem (dpt (pt (5 / 2) 1)) (dpt (pt 1 (4 / 3)))]\<rparr>)"
  by (simp add: cmd_connect_def handleConnect_def repo_get_def with_line_triangle_def
      with_line_def empty_dispatcher_def register_shape_def repo_add_def dpt_pt
      round_double_small)

lemma trimmed_batch_lines:
  "trimmed ''create_line -name l1 -coord_1 {0,0} -coord_2 {5,2}'' =
     ''create_line -name l1 -coord_1 {0,0} -coord_2 {5,2}''"
  "trimmed ''bogus'' = ''bogus''"
  "trimmed ''create_triangle -name t1 -coord_1 {0,0} -coord_2 {3,0} -coord_3 {0,4}'' =
     ''create_triangle -name t1 -coord_1 {0,0} -coord_2 {3,0} -coord_3 {0,4}''"
  "trimmed ''create_line -name l1 -coord_1 {0,0} -coord_2 {1,1}'' =
     ''create_line -name l1 -coord_1 {0,0} -coord_2 {1,1}''"
  "trimmed ''connect -object_name_1 l1 -object_name_2 t1'' =
     ''connect -object_name_1 l1 -object_name_2 t1''"
  by (simp_all add: trimmed_eval)

lemma batch_outcomes:
  "line_outcomes (execute example_env (Suc 0)) batch_lines empty_dispatcher =
     Some ([Succeeded,
            DispatchFailed ''Unknown command 'bogus'.'',
            Succeeded,
            DispatchFailed ''An object named 'l1' already exists. Choose a unique name.'',
            Succeeded],
           with_line_triangle
             \<lparr>m_scene := m_scene with_line_triangle @
                 [DashedLineItem (dpt (pt (5 / 2) 1)) (dpt (pt 1 (4 / 3)))]\<rparr>)"
proof -
  have u: "execute example_env (Suc 0)
      \<lparr>name = ''bogus'', args = Map.empty, coords = Map.empty, errors = []\<rparr> [] with_line
    = Some (False, ''Unknown command 'bogus'.'', with_line)"
    using execute_unknown[of
        "\<lparr>name = ''bogus'', args = Map.empty, coords = Map.empty, errors = []\<rparr>"
        example_env 0 "[]" with_line]
    by simp
  show ?thesis
    unfolding batch_lines_def
    by (simp add: trimmed_batch_lines example_commands_parsed parse_bogus
        parse_duplicate_line execute_cmd_line execute_cmd_triangle u execute_duplicate_line
        execute_connect del: execute.simps)
qed

lemma batch_nests: "nests_within example_env (Suc 0) batch_lines"
  by (simp add: batch_lines_def opens_def trimmed_batch_lines example_commands_parsed
      parse_bogus parse_duplicate_line example_cmd_defs)

theorem execute_file_report_witness:
  "nests_within example_env 1 batch_lines \<and>
   execute example_env 2 cmd_execute_batch [] empty_dispatcher =
     Some (False,
           ''Script executed: 3 successes, 2 failures.\<newline>Line 2 failed: Unknown command 'bogus'.\<newline>Line 4 failed: An object named 'l1' already exists. Choose a unique name.'',
           with_line_triangle
             \<lparr>m_scene := m_scene with_line_triangle @
                 [DashedLineItem (dpt (pt (5 / 2) 1)) (dpt (pt 1 (4 / 3)))]\<rparr>)"
  using execute_file_report[where cmd = cmd_execute_batch and path = "''batch.txt''"
      and e = example_env and ls = batch_lines and n = "Suc 0" and m = "[]"
      and st = empty_dispatcher]
    batch_nests batch_outcomes
  by (simp add: cmd_execute_batch_def example_env_def show_nat_digit digit_char_def
      numeral_2_eq_2 del: execute.simps)

section \<open>Comment lines of a script\<close>

lemma split_ws_first:
  "cur \<noteq> [] \<Longrightarrow> \<exists>t ts. split_ws cur cs = t # ts \<and> take (length cur) t = cur"
proof (induction cs arbitrary: cur)
  case Nil
  then show ?case by simp
next
  case (Cons c cs)
  show ?case
  proof (cases "re_space c")
    case True
    with Cons.prems show ?thesis by simp
  next
    case False
    from Cons.IH[of "cur @ [c]"] obtain t ts where
      "split_ws (cur @ [c]) cs = t # ts" and "take (length (cur @ [c])) t = cur @ [c]"
      by auto
    then have "take (length cur) t = cur"
      by (metis append_eq_conv_conj append_take_drop_id append.assoc)
    with False \<open>split_ws (cur @ [c]) cs = t # ts\<close> show ?thesis by simp
  qed
qed

lemma parse_tokens_name: "parse_tokens ts out = Inr out' \<Longrightarrow> name out' = name out"
  by (induction ts out rule: parse_tokens.induct)
    (auto simp: parseFlagValue_def split: if_splits sum.splits)

lemma hash_not_space: "\<not> re_space CHR ''#''"
  by (simp add: re_space_def)

lemma parse_comment_name:
  assumes "parse (CHR ''#'' # rest) = Inr c"
  shows "\<exists>r. name c = CHR ''#'' # r"
proof -
  from split_ws_first[of "[CHR ''#'']" rest] obtain t ts where
    sp: "split_ws [CHR ''#''] rest = t # ts" and tk: "take 1 t = [CHR ''#'']"
    by auto
  from tk obtain r where t: "t = CHR ''#'' # r"
    by (cases t) auto
  have "split_ws [] (CHR ''#'' # rest) = t # ts"
    using sp by (simp add: hash_not_space)
  with assms have "name c = t"
    by (auto simp: parse_def dest: parse_tokens_name split: sum.splits if_splits)
  with t show ?thesis by simp
qed

lemma execute_comment_command:
  assumes "name c = CHR ''#'' # r"
  shows "execute e (Suc n) c m st =
     Some (False, ''Unknown command '' @ [CHR 0x27] @ name c @ [CHR 0x27] @ ''.'', st)"
  using assms by (simp add: msg_unknown)

text \<open>
  C2. During \<open>execute_file\<close>, a line that is blank or whose first character after the
  leading white space is \<open>#\<close> is to be skipped: not parsed, not dispatched, counted
  neither as a success nor as a failure. The loop skips a blank line. It has no test
  for \<open>#\<close>: a line that starts with \<open>#\<close> is parsed, and either the parser refuses it or
  its command, whose name starts with \<open>#\<close>, is dispatched and refused as unknown. So the
  outcome of every such line is a failure, which the run counts and reports.
\<close>

theorem comment_lines_fail:
  assumes "trimmed l = CHR ''#'' # rest"
  shows "\<exists>x. is_failure x \<and>
           line_outcomes (execute e (Suc n)) (l # ls) st =
             (case line_outcomes (execute e (Suc n)) ls st of
                None \<Rightarrow> None
              | Some (os, st') \<Rightarrow> Some (x # os, st'))"
proof (cases "parse (trimmed l)")
  case (Inl err)
  then show ?thesis using assms
    by (intro exI[of _ "ParseFailed err"]) (simp del: execute.simps)
next
  case (Inr c)
  with assms obtain r where "name c = CHR ''#'' # r"
    using parse_comment_name by metis
  from execute_comment_command[OF this, of e n "[]" st] obtain msg where
    "execute e (Suc n) c [] st = Some (False, msg, st)" by blast
  with Inr assms show ?thesis
    by (intro exI[of _ "DispatchFailed msg"]) (simp del: execute.simps)
qed

text \<open>
  The script of the one line \<open># comment\<close>: the parser refuses the second token, the run
  reports one failure and returns false.
\<close>

theorem comment_line_counted_as_failure:
  "trimmed ''# comment'' = CHR ''#'' # '' comment'' \<and>
   line_outcomes (execute example_env 1) [''# comment''] empty_dispatcher =
     Some ([ParseFailed ''Unexpected token 'comment'. Flags should start with '-'.''],
           empty_dispatcher) \<and>
   execute example_env 2 cmd_execute_comment [] empty_dispatcher =
     Some (False,
           ''Script executed: 0 successes, 1 failures.\<newline>Line 1 parse error: Unexpected token 'comment'. Flags should start with '-'.'',
           empty_dispatcher)"
proof -
  have t: "trimmed ''# comment'' = ''# comment''"
    by (simp add: trimmed_eval)
  have p: "parse ''# comment'' =
    Inl ''Unexpected token 'comment'. Flags should start with '-'.''"
    by (simp add: parse_eval qarg_eval)
  have o: "line_outcomes (execute example_env (Suc 0)) [''# comment''] empty_dispatcher =
     Some ([ParseFailed ''Unexpected token 'comment'. Flags should start with '-'.''],
           empty_dispatcher)"
    using comment_lines_fail[of "''# comment''" "'' comment''" example_env 0 "[]"
        empty_dispatcher]
    by (simp add: t p del: execute.simps)
  have "script_loop (execute example_env (Suc 0)) [''# comment''] 0 0 0 [] empty_dispatcher =
    Some (0, 1, ''\<newline>Line 1 parse error: Unexpected token 'comment'. Flags should start with '-'.'',
          empty_dispatcher)"
    using script_loop_outcomes[OF o, of 0 0 0 "[]"]
    by (simp add: show_nat_digit digit_char_def del: execute.simps)
  moreover have "files example_env ''comment.txt'' = Some [''# comment'']"
    by (simp add: example_env_def)
  ultimately have "handleExecuteFile example_env (execute example_env (Suc 0))
      cmd_execute_comment [] empty_dispatcher =
     Some (False,
           ''Script executed: 0 successes, 1 failures.\<newline>Line 1 parse error: Unexpected token 'comment'. Flags should start with '-'.'',
           empty_dispatcher)"
    by (simp add: cmd_execute_comment_def handleExecuteFile_def report_header show_nat_digit
        digit_char_def del: execute.simps script_loop.simps)
  then have "execute example_env (Suc (Suc 0)) cmd_execute_comment [] empty_dispatcher =
     Some (False,
           ''Script executed: 0 successes, 1 failures.\<newline>Line 1 parse error: Unexpected token 'comment'. Flags should start with '-'.'',
           empty_dispatcher)"
    by (simp add: cmd_execute_comment_def del: script_loop.simps)
  with t o show ?thesis by (simp add: numeral_2_eq_2 del: execute.simps)
qed

end
